theory Spec2Isabelle
  imports Complex_Main "HOL-Library.Sublist" "HOL-Library.Multiset"
begin

section \<open>JavaScript strings and values\<close>

text \<open>
  A JavaScript string is modelled by its UTF-8 encoding, a \<open>string\<close> of bytes, as
  Isabelle's own string literals are: an ASCII character is one \<open>char\<close>, any other
  code point is several (U+00A0 is \<open>[CHR 0xC2, CHR 0xA0]\<close>). Equality, emptiness and
  the search for an ASCII substring are the same on the encoding as on the string.
  \<open>trim\<close> strips every white space and line terminator of ECMAScript.
  \<open>toLowerCase\<close> and the capital of \<open>formatEndReason\<close> map the ASCII letters only:
  they agree with JavaScript on ASCII text, which the predicate \<open>ascii\<close> describes.
  JavaScript numbers that arrive in JSON payloads are modelled as rationals (there is
  no NaN in JSON); \<open>Date\<close> values are integer milliseconds since the epoch.
\<close>

type_synonym number = rat

definition upperAlphabet :: string where
  "upperAlphabet = ''ABCDEFGHIJKLMNOPQRSTUVWXYZ''"

definition lowerAlphabet :: string where
  "lowerAlphabet = ''abcdefghijklmnopqrstuvwxyz''"

definition lowerChar :: "char \<Rightarrow> char" where
  "lowerChar c = (case map_of (zip upperAlphabet lowerAlphabet) c of Some l \<Rightarrow> l | None \<Rightarrow> c)"

definition upperChar :: "char \<Rightarrow> char" where
  "upperChar c = (case map_of (zip lowerAlphabet upperAlphabet) c of Some u \<Rightarrow> u | None \<Rightarrow> c)"

definition toLowerCase :: "string \<Rightarrow> string" where
  "toLowerCase s = map lowerChar s"

text \<open>The rest of \<open>s\<close> after the prefix \<open>p\<close>, when \<open>s\<close> starts with \<open>p\<close>.\<close>

fun stripPrefix :: "string \<Rightarrow> string \<Rightarrow> string option" where
  "stripPrefix [] s = Some s"
| "stripPrefix (p # ps) [] = None"
| "stripPrefix (p # ps) (c # cs) = (if p = c then stripPrefix ps cs else None)"

text \<open>
  The encodings of the code points that \<open>String.prototype.trim\<close> strips: the white
  space U+0009, U+000B, U+000C, U+0020, U+00A0, U+1680, U+2000 to U+200A, U+202F,
  U+205F, U+3000, U+FEFF and the line terminators U+000A, U+000D, U+2028, U+2029.
\<close>

definition whiteSpace :: "string list" where
  "whiteSpace =
     [[CHR 0x09], [CHR 0x0A], [CHR 0x0B], [CHR 0x0C], [CHR 0x0D], [CHR 0x20],
      [CHR 0xC2, CHR 0xA0],
      [CHR 0xE1, CHR 0x9A, CHR 0x80],
      [CHR 0xE2, CHR 0x80, CHR 0x80], [CHR 0xE2, CHR 0x80, CHR 0x81],
      [CHR 0xE2, CHR 0x80, CHR 0x82], [CHR 0xE2, CHR 0x80, CHR 0x83],
      [CHR 0xE2, CHR 0x80, CHR 0x84], [CHR 0xE2, CHR 0x80, CHR 0x85],
      [CHR 0xE2, CHR 0x80, CHR 0x86], [CHR 0xE2, CHR 0x80, CHR 0x87],
      [CHR 0xE2, CHR 0x80, CHR 0x88], [CHR 0xE2, CHR 0x80, CHR 0x89],
      [CHR 0xE2, CHR 0x80, CHR 0x8A],
      [CHR 0xE2, CHR 0x80, CHR 0xA8], [CHR 0xE2, CHR 0x80, CHR 0xA9],
      [CHR 0xE2, CHR 0x80, CHR 0xAF],
      [CHR 0xE2, CHR 0x81, CHR 0x9F],
      [CHR 0xE3, CHR 0x80, CHR 0x80],
      [CHR 0xEF, CHR 0xBB, CHR 0xBF]]"

text \<open>Strip one of the sequences \<open>ws\<close> from the front, and strip them as long as one fits.\<close>

fun stripOne :: "string list \<Rightarrow> string \<Rightarrow> string option" where
  "stripOne [] s = None"
| "stripOne (w # ws) s = (case stripPrefix w s of Some r \<Rightarrow> Some r | None \<Rightarrow> stripOne ws s)"

function trimFront :: "string list \<Rightarrow> string \<Rightarrow> string" where
  "trimFront ws s =
     (case stripOne ws s of
        Some r \<Rightarrow> if length r < length s then trimFront ws r else s
      | None \<Rightarrow> s)"
  by pat_completeness auto
termination
  by (relation "measure (\<lambda>(ws, s). length s)") auto

declare trimFront.simps [simp del]

text \<open>
  \<open>s.trim()\<close>: the white space is stripped from the front, then from the end (the
  reversed sequences from the front of the reversed string).
\<close>

definition trim :: "string \<Rightarrow> string" where
  "trim s = rev (trimFront (map rev whiteSpace) (rev (trimFront whiteSpace s)))"


text \<open>
  Well-formed UTF-8, the encodings of the strings without lone surrogates: the bytes
  are read as numbers.
\<close>

definition continuation :: "nat \<Rightarrow> bool" where
  "continuation b = (128 \<le> b \<and> b < 192)"

fun utf8Bytes :: "nat list \<Rightarrow> bool" where
  "utf8Bytes [] = True"
| "utf8Bytes (a # bs) =
     (if a < 128 then utf8Bytes bs
      else if 194 \<le> a \<and> a < 224
      then (case bs of
              b # bs' \<Rightarrow> continuation b \<and> utf8Bytes bs'
            | _ \<Rightarrow> False)
      else if 224 \<le> a \<and> a < 240
      then (case bs of
              b # c # bs' \<Rightarrow>
                (if a = 224 then 160 \<le> b \<and> b < 192
                 else if a = 237 then 128 \<le> b \<and> b < 160
                 else continuation b)
                \<and> continuation c \<and> utf8Bytes bs'
            | _ \<Rightarrow> False)
      else if 240 \<le> a \<and> a < 245
      then (case bs of
              b # c # d # bs' \<Rightarrow>
                (if a = 240 then 144 \<le> b \<and> b < 192
                 else if a = 244 then 128 \<le> b \<and> b < 144
                 else continuation b)
                \<and> continuation c \<and> continuation d \<and> utf8Bytes bs'
            | _ \<Rightarrow> False)
      else False)"

definition utf8 :: "string \<Rightarrow> bool" where
  "utf8 s = utf8Bytes (map of_char s)"

text \<open>\<open>s.startsWith(p)\<close>, and \<open>s.includes(t)\<close>: \<open>t\<close> occurs in \<open>s\<close> as a
  contiguous substring.\<close>

fun startsWith :: "string \<Rightarrow> string \<Rightarrow> bool" where
  "startsWith s [] = True"
| "startsWith [] (p # ps) = False"
| "startsWith (c # cs) (p # ps) = (c = p \<and> startsWith cs ps)"

fun str_includes :: "string \<Rightarrow> string \<Rightarrow> bool" where
  "str_includes [] t = (t = [])"
| "str_includes (c # cs) t = (startsWith (c # cs) t \<or> str_includes cs t)"

text \<open>\<open>xs.join(sep)\<close>\<close>

fun join :: "string \<Rightarrow> string list \<Rightarrow> string" where
  "join sep [] = []"
| "join sep [x] = x"
| "join sep (x # y # ys) = x @ sep @ join sep (y # ys)"

text \<open>Decimal rendering of a natural number, as a template literal prints it.\<close>

fun showNat :: "nat \<Rightarrow> string" where
  "showNat n =
     (if n < 10 then [''0123456789'' ! n] else showNat (n div 10) @ [''0123456789'' ! (n mod 10)])"

declare showNat.simps [simp del]

text \<open>Truthiness of optional strings and numbers: \<open>undefined\<close>, \<open>""\<close> and \<open>0\<close> are falsy.\<close>

fun truthyS :: "string option \<Rightarrow> bool" where
  "truthyS None = False"
| "truthyS (Some s) = (s \<noteq> [])"

fun truthyN :: "'a::zero option \<Rightarrow> bool" where
  "truthyN None = False"
| "truthyN (Some n) = (n \<noteq> 0)"

text \<open>\<open>x || undefined\<close> (also \<open>x || null\<close>)\<close>

definition orUndefS :: "string option \<Rightarrow> string option" where
  "orUndefS x = (if truthyS x then x else None)"

definition orUndefN :: "'a::zero option \<Rightarrow> 'a option" where
  "orUndefN x = (if truthyN x then x else None)"

section \<open>Data model (call.types.ts)\<close>

datatype CallState = GREETING | QUALIFICATION | CLOSING | END

datatype CallStatus =
  PENDING | CALLING | IN_PROGRESS | COMPLETED | FAILED | NO_ANSWER | VOICEMAIL

datatype InterestLevel = HOT | WARM | COLD | NOT_INTERESTED

datatype Role = User | Bot | System

section \<open>Interest level (vapiRoutes in src/unnamed/part_003, call.service.ts)\<close>

text \<open>\<open>analyzeInterestLevel\<close> of the webhook routes: the HOT markers are tested first.\<close>

definition analyzeInterestLevel :: "string \<Rightarrow> InterestLevel" where
  "analyzeInterestLevel transcript =
     (let lower = toLowerCase transcript in
      if str_includes lower ''yes'' \<or> str_includes lower ''interested''
         \<or> str_includes lower ''how much'' \<or> str_includes lower ''make an offer''
      then HOT
      else if str_includes lower ''not interested'' \<or> str_includes lower ''no thanks''
         \<or> str_includes lower ''don't call''
      then NOT_INTERESTED
      else if str_includes lower ''maybe'' \<or> str_includes lower ''thinking about''
         \<or> str_includes lower ''tell me more''
      then WARM
      else COLD)"

text \<open>The interest analysis inside \<open>callService.generateBasicSummary\<close>.\<close>

definition basicInterestLevel :: "string \<Rightarrow> InterestLevel" where
  "basicInterestLevel transcriptText =
     (let lower = toLowerCase transcriptText in
      if str_includes lower ''yes'' \<or> str_includes lower ''interested'' \<or> str_includes lower ''how much''
      then HOT
      else if str_includes lower ''not interested'' \<or> str_includes lower ''no thanks''
      then NOT_INTERESTED
      else if str_includes lower ''maybe'' \<or> str_includes lower ''thinking about''
      then WARM
      else COLD)"

section \<open>Records (call.types.ts) and the rows of the table calls\<close>

record TranscriptMessage =
  t_role :: Role
  t_message :: string
  t_time :: "number option"
  t_secondsFromStart :: "number option"

text \<open>
  The schema takes any positive number as acreage (the column is REAL); only whole
  numbers of acres are modelled here, which print as they do in JavaScript.
\<close>

record LeadData =
  firstName :: string
  lastName :: string
  ld_phone :: string
  county :: string
  ld_state :: string
  acreage :: "nat option"
  propertyAddress :: "string option"

record CallSummary =
  duration :: number
  outcome :: string
  interestLevel :: InterestLevel
  keyPoints :: "string list"
  nextAction :: "string option"
  appointmentScheduled :: "bool option"

record CallEntity =
  call_id :: string
  phone :: string
  state :: CallState
  status :: CallStatus
  transcript :: "TranscriptMessage list"
  leadData :: "LeadData option"
  summary :: "CallSummary option"
  vapiCallId :: "string option"
  errorMessage :: "string option"
  startedAt :: "int option"
  completedAt :: "int option"
  createdAt :: int
  updatedAt :: int

text \<open>
  A row of the table \<open>calls\<close>. The columns \<open>transcript\<close> and \<open>summary\<close> hold JSON
  text; they are modelled by the values that \<open>JSON.parse\<close> gives back.
\<close>

record Row =
  row_id :: string
  vapi_call_id :: "string option"
  lead_first_name :: string
  lead_last_name :: string
  lead_phone :: string
  lead_county :: string
  lead_state :: string
  lead_acreage :: "nat option"
  lead_property_address :: "string option"
  row_status :: CallStatus
  current_state :: CallState
  row_transcript :: "TranscriptMessage list"
  row_summary :: "CallSummary option"
  error_message :: "string option"
  created_at :: int
  updated_at :: int
  started_at :: "int option"
  ended_at :: "int option"

text \<open>The table, with \<open>id\<close> as primary key.\<close>

type_synonym db = "Row list"

section \<open>Call service (call.service.ts)\<close>

definition rowToCall :: "Row \<Rightarrow> CallEntity" where
  "rowToCall row =
     \<lparr> call_id = row_id row,
       phone = lead_phone row,
       state = current_state row,
       status = row_status row,
       transcript = row_transcript row,
       leadData = Some \<lparr> firstName = lead_first_name row,
                          lastName = lead_last_name row,
                          ld_phone = lead_phone row,
                          county = lead_county row,
                          ld_state = lead_state row,
                          acreage = orUndefN (lead_acreage row),
                          propertyAddress = orUndefS (lead_property_address row) \<rparr>,
       summary = row_summary row,
       vapiCallId = orUndefS (vapi_call_id row),
       errorMessage = orUndefS (error_message row),
       startedAt = orUndefN (started_at row),
       completedAt = orUndefN (ended_at row),
       createdAt = created_at row,
       updatedAt = updated_at row \<rparr>"

text \<open>\<open>call.leadData?.f || d\<close>\<close>

definition leadOr :: "LeadData option \<Rightarrow> (LeadData \<Rightarrow> string) \<Rightarrow> string \<Rightarrow> string" where
  "leadOr l f d = (case l of None \<Rightarrow> d | Some x \<Rightarrow> if f x = [] then d else f x)"

definition callToRow :: "CallEntity \<Rightarrow> Row" where
  "callToRow call =
     \<lparr> row_id = call_id call,
       vapi_call_id = orUndefS (vapiCallId call),
       lead_first_name = leadOr (leadData call) firstName ''Unknown'',
       lead_last_name = leadOr (leadData call) lastName [],
       lead_phone = phone call,
       lead_county = leadOr (leadData call) county ''Unknown'',
       lead_state = leadOr (leadData call) ld_state ''Unknown'',
       lead_acreage = (case leadData call of None \<Rightarrow> None | Some l \<Rightarrow> orUndefN (acreage l)),
       lead_property_address =
         (case leadData call of None \<Rightarrow> None | Some l \<Rightarrow> orUndefS (propertyAddress l)),
       row_status = status call,
       current_state = state call,
       row_transcript = transcript call,
       row_summary = summary call,
       error_message = orUndefS (errorMessage call),
       created_at = createdAt call,
       updated_at = updatedAt call,
       started_at = startedAt call,
       ended_at = completedAt call \<rparr>"

text \<open>\<open>callService.get\<close>: \<open>SELECT * FROM calls WHERE id = ?\<close>\<close>

definition get :: "db \<Rightarrow> string \<Rightarrow> CallEntity option" where
  "get d i = map_option rowToCall (find (\<lambda>r. row_id r = i) d)"

text \<open>\<open>callService.getByVapiCallId\<close>: \<open>SELECT * FROM calls WHERE vapi_call_id = ?\<close>\<close>

definition getByVapiCallId :: "db \<Rightarrow> string \<Rightarrow> CallEntity option" where
  "getByVapiCallId d v = map_option rowToCall (find (\<lambda>r. vapi_call_id r = Some v) d)"

text \<open>
  \<open>callService.save\<close>: sets \<open>updatedAt\<close> to the clock and runs
  \<open>UPDATE calls SET ... WHERE id = @id\<close>, which writes every column but \<open>id\<close> and
  \<open>created_at\<close>. The clock is the argument \<open>now\<close>.
\<close>

definition save :: "int \<Rightarrow> CallEntity \<Rightarrow> db \<Rightarrow> db" where
  "save now call d =
     (let row = callToRow (call\<lparr>updatedAt := now\<rparr>)
      in map (\<lambda>r. if row_id r = row_id row then row\<lparr>created_at := created_at r\<rparr> else r) d)"

text \<open>\<open>callService.updateStatus\<close>\<close>

definition updateStatus :: "int \<Rightarrow> string \<Rightarrow> CallStatus \<Rightarrow> string option \<Rightarrow> db \<Rightarrow> db" where
  "updateStatus now i st errMsg d =
     (case get d i of
        None \<Rightarrow> d
      | Some call \<Rightarrow>
          let c1 = call\<lparr>status := st, updatedAt := now\<rparr>;
              c2 = (if st = IN_PROGRESS \<and> startedAt c1 = None
                    then c1\<lparr>startedAt := Some now\<rparr> else c1);
              c3 = (if (st = COMPLETED \<or> st = FAILED) \<and> completedAt c2 = None
                    then c2\<lparr>completedAt := Some now, state := END\<rparr> else c2);
              c4 = (if st = FAILED \<and> truthyS errMsg
                    then c3\<lparr>errorMessage := errMsg\<rparr> else c3)
          in save now c4 d)"

text \<open>\<open>callService.updateState\<close>\<close>

definition updateState :: "int \<Rightarrow> string \<Rightarrow> CallState \<Rightarrow> db \<Rightarrow> db" where
  "updateState now i s d =
     (case get d i of
        None \<Rightarrow> d
      | Some call \<Rightarrow> save now (call\<lparr>state := s, updatedAt := now\<rparr>) d)"

text \<open>\<open>callService.addSummary\<close>\<close>

definition addSummary :: "int \<Rightarrow> string \<Rightarrow> CallSummary \<Rightarrow> db \<Rightarrow> db" where
  "addSummary now i s d =
     (case get d i of
        None \<Rightarrow> d
      | Some call \<Rightarrow> save now (call\<lparr>summary := Some s, updatedAt := now\<rparr>) d)"

text \<open>The property line of the key points: \<open>`Property: ${acreage || "?"} acres in ...`\<close>\<close>

definition propertyLine :: "LeadData \<Rightarrow> string" where
  "propertyLine l =
     ''Property: '' @ (case orUndefN (acreage l) of None \<Rightarrow> ''?'' | Some a \<Rightarrow> showNat a)
       @ '' acres in '' @ county l @ '' County, '' @ ld_state l"

text \<open>\<open>Math.floor((completedAt - startedAt) / 1000)\<close> when both are set, else \<open>0\<close>.\<close>

definition timestampDuration :: "CallEntity \<Rightarrow> number" where
  "timestampDuration call =
     (case (startedAt call, completedAt call) of
        (Some s, Some c) \<Rightarrow> of_int ((c - s) div 1000)
      | _ \<Rightarrow> 0)"

text \<open>\<open>callService.generateBasicSummary\<close>\<close>

definition generateBasicSummary :: "CallEntity \<Rightarrow> CallSummary" where
  "generateBasicSummary call =
     (let transcriptText = join '' '' (map t_message (transcript call));
          il = basicInterestLevel transcriptText;
          kp = (case leadData call of None \<Rightarrow> [] | Some l \<Rightarrow> [propertyLine l])
               @ (if transcript call \<noteq> []
                  then [''Conversation length: '' @ showNat (length (transcript call)) @ '' messages'']
                  else [])
               @ (if status call = FAILED then [''Call timed out or failed''] else [])
      in \<lparr> duration = timestampDuration call,
           outcome = (if status call = FAILED then ''Call failed or timed out''
                      else if il = HOT then ''Lead qualified - needs offer''
                      else if il = NOT_INTERESTED then ''Lead not interested''
                      else ''Call completed''),
           interestLevel = il,
           keyPoints = kp,
           nextAction = Some (if status call = FAILED then ''Retry call later''
                              else if il = HOT then ''Send offer via email''
                              else if il = NOT_INTERESTED then ''Mark as do not contact''
                              else ''Review transcript''),
           appointmentScheduled = Some False \<rparr>)"

text \<open>
  \<open>callService.markStaleCallsAsFailed\<close>: the stale rows are selected first, then each
  is failed and, when it has a transcript and no summary, summarised from the
  snapshot that was selected. The result is the number of stale calls and the table.
\<close>

definition timeoutMessage :: "nat \<Rightarrow> string" where
  "timeoutMessage timeoutSeconds =
     ''Call timed out after '' @ showNat (timeoutSeconds div 60)
       @ '' minutes without status update''"

definition isStale :: "int \<Rightarrow> nat \<Rightarrow> Row \<Rightarrow> bool" where
  "isStale now timeoutSeconds r =
     ((row_status r = CALLING \<or> row_status r = IN_PROGRESS)
      \<and> updated_at r < now - int timeoutSeconds * 1000)"

definition failStale :: "int \<Rightarrow> nat \<Rightarrow> CallEntity \<Rightarrow> db \<Rightarrow> db" where
  "failStale now timeoutSeconds call d =
     (let d1 = updateStatus now (call_id call) FAILED (Some (timeoutMessage timeoutSeconds)) d
      in if transcript call \<noteq> [] \<and> summary call = None
         then addSummary now (call_id call) (generateBasicSummary call) d1
         else d1)"

definition markStaleCallsAsFailed :: "int \<Rightarrow> nat \<Rightarrow> db \<Rightarrow> nat \<times> db" where
  "markStaleCallsAsFailed now timeoutSeconds d =
     (let staleCalls = map rowToCall (filter (isStale now timeoutSeconds) d)
      in (length staleCalls, fold (failStale now timeoutSeconds) staleCalls d))"

section \<open>Webhook events (the schemas in src/unnamed/part_003)\<close>

record VapiMessage =
  m_role :: string
  m_message :: "string option"
  m_content :: "string option"
  m_time :: "number option"
  m_endTime :: "number option"
  m_secondsFromStart :: "number option"

text \<open>
  The \<open>message\<close> object of a webhook payload: \<open>call_ref\<close> is \<open>message.call?.id\<close> and
  \<open>artifact_messages\<close> is \<open>message.artifact?.messages\<close>.
\<close>

record WebhookMessage =
  msg_type :: string
  msg_status :: "string option"
  endedReason :: "string option"
  artifact_messages :: "VapiMessage list option"
  call_ref :: "string option"
  msg_messages :: "VapiMessage list option"
  conversation :: "VapiMessage list option"

section \<open>Transcript extraction (vapiRoutes in src/unnamed/part_003)\<close>

text \<open>\<open>(m.message || m.content || "").trim()\<close>\<close>

definition msgText :: "VapiMessage \<Rightarrow> string" where
  "msgText m =
     trim (if truthyS (m_message m) then the (m_message m)
           else if truthyS (m_content m) then the (m_content m)
           else [])"

definition validMessages :: "VapiMessage list \<Rightarrow> VapiMessage list" where
  "validMessages messages =
     filter (\<lambda>m. msgText m \<noteq> [])
       (filter (\<lambda>m. m_role m = ''user'' \<or> m_role m = ''bot'') messages)"

definition roleOf :: "string \<Rightarrow> Role" where
  "roleOf r = (if r = ''user'' then User else if r = ''bot'' then Bot else System)"

fun roleName :: "Role \<Rightarrow> string" where
  "roleName User = ''user''"
| "roleName Bot = ''bot''"
| "roleName System = ''system''"

text \<open>The entry pushed for a message.\<close>

definition toTranscript :: "VapiMessage \<Rightarrow> TranscriptMessage" where
  "toTranscript msg =
     \<lparr> t_role = roleOf (m_role msg),
       t_message = msgText msg,
       t_time = m_time msg,
       t_secondsFromStart = m_secondsFromStart msg \<rparr>"

text \<open>\<open>x || y\<close> on an optional number and a number.\<close>

definition orN :: "number option \<Rightarrow> number \<Rightarrow> number" where
  "orN x y = (if truthyN x then the x else y)"

text \<open>
  The deduplication keys \<open>`${role}:${text}:${time || 0}`\<close>. The three parts are kept
  as a triple: a role contains no colon and a printed number contains none, so two
  key strings are equal exactly when the triples are.
\<close>

type_synonym messageId = "string \<times> string \<times> number"

definition transcriptId :: "TranscriptMessage \<Rightarrow> messageId" where
  "transcriptId t = (roleName (t_role t), toLowerCase (trim (t_message t)), orN (t_time t) 0)"

definition messageId :: "VapiMessage \<Rightarrow> messageId" where
  "messageId msg = (m_role msg, toLowerCase (msgText msg), orN (m_time msg) 0)"

text \<open>The loop of the real-time mode over the valid messages.\<close>

fun pushNew :: "messageId set \<Rightarrow> TranscriptMessage list \<Rightarrow> VapiMessage list
    \<Rightarrow> TranscriptMessage list" where
  "pushNew existingMessages tr [] = tr"
| "pushNew existingMessages tr (msg # msgs) =
     (if messageId msg \<notin> existingMessages
      then pushNew (insert (messageId msg) existingMessages) (tr @ [toTranscript msg]) msgs
      else pushNew existingMessages tr msgs)"

text \<open>
  The sort key \<open>a.time || a.secondsFromStart || 0\<close>. \<open>Array.prototype.sort\<close> is stable,
  and the comparator \<open>timeA - timeB\<close> orders by this key, so the sort is \<open>sort_key\<close>.
\<close>

definition sortTime :: "TranscriptMessage \<Rightarrow> number" where
  "sortTime a = orN (t_time a) (orN (t_secondsFromStart a) 0)"

definition extractTranscriptFromMessages ::
    "CallEntity \<Rightarrow> VapiMessage list \<Rightarrow> bool \<Rightarrow> CallEntity" where
  "extractTranscriptFromMessages call messages isFinalTranscript =
     (let valid = validMessages messages;
          pushed = (if isFinalTranscript
                    then transcript call @ map toTranscript valid
                    else pushNew (set (map transcriptId (transcript call))) (transcript call) valid)
      in call\<lparr>transcript := sort_key sortTime pushed\<rparr>)"

section \<open>Call summary (vapiRoutes in src/unnamed/part_003)\<close>

text \<open>\<open>Math.max(...xs)\<close> on a non-empty list.\<close>

fun maxList :: "number list \<Rightarrow> number" where
  "maxList [] = 0"
| "maxList (x # xs) = fold max xs x"

definition artifactDuration :: "VapiMessage list \<Rightarrow> number" where
  "artifactDuration messages =
     (let botMessages = filter (\<lambda>m. m_role m = ''bot'') messages
      in if botMessages \<noteq> []
         then maxList (map (\<lambda>m. orN (m_endTime m) (orN (m_time m) 0) / 1000) botMessages)
         else 0)"

definition extractKeyPoints :: "CallEntity \<Rightarrow> string list" where
  "extractKeyPoints call =
     (case leadData call of None \<Rightarrow> [] | Some l \<Rightarrow> [propertyLine l])
     @ (if state call = QUALIFICATION
        then [''Lead qualified - answered qualification questions''] else [])
     @ (if state call = CLOSING then [''Reached closing stage - discussed offer''] else [])
     @ (if transcript call \<noteq> []
        then [''Conversation length: '' @ showNat (length (transcript call)) @ '' exchanges'']
        else [])"

definition determineOutcome :: "CallEntity \<Rightarrow> InterestLevel \<Rightarrow> string" where
  "determineOutcome call il =
     (if il = NOT_INTERESTED then ''Not interested in selling''
      else if state call = END
      then (if il = HOT then ''Appointment scheduled'' else ''Call completed'')
      else if state call = CLOSING then ''Discussed offer - follow up needed''
      else if state call = QUALIFICATION then ''Lead qualified - needs offer''
      else ''Initial contact made'')"

definition determineNextAction :: "CallEntity \<Rightarrow> InterestLevel \<Rightarrow> string option" where
  "determineNextAction call il =
     (if il = NOT_INTERESTED then Some ''Mark as not interested''
      else if il = HOT
      then (if state call = CLOSING \<or> state call = END
            then Some ''Send offer via email'' else Some ''Schedule follow-up call'')
      else if il = WARM then Some ''Follow up in 1 week''
      else if il = COLD then Some ''Follow up in 2-4 weeks''
      else None)"

text \<open>\<open>generateCallSummary(call, artifact)\<close>; the argument is \<open>artifact?.messages\<close>.\<close>

definition generateCallSummary :: "CallEntity \<Rightarrow> VapiMessage list option \<Rightarrow> CallSummary" where
  "generateCallSummary call artifactMessages =
     (let d = (case artifactMessages of
                 Some messages \<Rightarrow> artifactDuration messages
               | None \<Rightarrow> timestampDuration call);
          transcriptText = join '' '' (map t_message (transcript call));
          il = analyzeInterestLevel transcriptText
      in \<lparr> duration = d,
           outcome = determineOutcome call il,
           interestLevel = il,
           keyPoints = extractKeyPoints call,
           nextAction = determineNextAction call il,
           appointmentScheduled = Some (state call = CLOSING \<and> il \<noteq> NOT_INTERESTED) \<rparr>)"

section \<open>Status updates (vapiRoutes in src/unnamed/part_003)\<close>

definition successReasons :: "string list" where
  "successReasons =
     [''customer-ended-call'', ''assistant-ended-call'', ''silence-timed-out'',
      ''assistant-said-end-call-phrase'', ''assistant-said-message-too-long'']"

definition voicemailReasons :: "string list" where
  "voicemailReasons = [''voicemail'', ''voicemail-reached'']"

definition noAnswerReasons :: "string list" where
  "noAnswerReasons = [''no-answer'', ''no-answer-voicemail'']"

text \<open>The final status that \<open>handleStatusUpdate\<close> derives from the end reason.\<close>

definition finalStatus :: "string \<Rightarrow> CallStatus" where
  "finalStatus endReason =
     (if endReason \<in> set successReasons then COMPLETED
      else if list_ex (\<lambda>r. str_includes endReason r) voicemailReasons then VOICEMAIL
      else if list_ex (\<lambda>r. str_includes endReason r) noAnswerReasons then NO_ANSWER
      else FAILED)"

text \<open>\<open>formatEndReason\<close>: the three anchored replacements, then separators, then the capital.\<close>

definition formatEndReason :: "string \<Rightarrow> string" where
  "formatEndReason endReason =
     (let s1 = (case stripPrefix ''call.'' endReason of
                  None \<Rightarrow> endReason
                | Some r \<Rightarrow> (case stripPrefix ''in-progress.'' r of None \<Rightarrow> r | Some r' \<Rightarrow> r'));
          s2 = (case stripPrefix ''pipeline-error-'' s1 of
                  None \<Rightarrow> s1 | Some r \<Rightarrow> ''Pipeline error: '' @ r);
          s3 = (case stripPrefix ''error-'' s2 of None \<Rightarrow> s2 | Some r \<Rightarrow> r);
          s4 = map (\<lambda>c. if c = CHR ''-'' \<or> c = CHR ''_'' then CHR '' '' else c) s3
      in case s4 of [] \<Rightarrow> [] | c # cs \<Rightarrow> upperChar c # cs)"

text \<open>The error message chosen for an ended call.\<close>

definition endedErrorMessage :: "CallStatus \<Rightarrow> string \<Rightarrow> string option" where
  "endedErrorMessage fs endReason =
     (if fs = FAILED
      then (if str_includes endReason ''sip-503''
            then Some ''Service Unavailable (SIP 503) - recipient's phone service temporarily unavailable''
            else if str_includes endReason ''sip-486''
            then Some ''Busy Here (SIP 486) - recipient is busy''
            else if str_includes endReason ''sip-480''
            then Some ''Temporarily Unavailable (SIP 480)''
            else Some (formatEndReason endReason))
      else if fs = VOICEMAIL then Some ''Call reached voicemail''
      else if fs = NO_ANSWER then Some ''No answer from recipient''
      else None)"

text \<open>The error message for the statuses failed, busy and no-answer.\<close>

definition failedErrorMessage :: "string \<Rightarrow> string option \<Rightarrow> string" where
  "failedErrorMessage st reason =
     (if st = ''no-answer'' then ''No answer from recipient''
      else if st = ''busy'' then ''Recipient line was busy''
      else if st = ''failed'' \<and> truthyS reason then ''Call failed - '' @ the reason
      else ''Call '' @ st @ (if truthyS reason then '' - Reason: '' @ the reason else []))"

text \<open>Re-fetch the call and store a freshly generated summary.\<close>

definition summarise :: "int \<Rightarrow> string \<Rightarrow> VapiMessage list option \<Rightarrow> db \<Rightarrow> db" where
  "summarise now i artifactMessages d =
     (case get d i of
        None \<Rightarrow> d
      | Some updatedCall \<Rightarrow>
          addSummary now (call_id updatedCall) (generateCallSummary updatedCall artifactMessages) d)"

definition handleStatusUpdate :: "int \<Rightarrow> WebhookMessage \<Rightarrow> db \<Rightarrow> db" where
  "handleStatusUpdate now message d =
     (if \<not> truthyS (call_ref message) \<or> \<not> truthyS (msg_status message) then d
      else case getByVapiCallId d (the (call_ref message)) of
        None \<Rightarrow> d
      | Some call \<Rightarrow>
          let st = the (msg_status message) in
          if st = ''queued'' then updateStatus now (call_id call) CALLING None d
          else if st = ''ringing'' then updateStatus now (call_id call) CALLING None d
          else if st = ''in-progress'' then updateStatus now (call_id call) IN_PROGRESS None d
          else if st = ''ended'' then
            (let endReason = (if truthyS (endedReason message) then the (endedReason message)
                              else ''completed'');
                 fs = finalStatus endReason;
                 d1 = (case artifact_messages message of
                         None \<Rightarrow> d
                       | Some messages \<Rightarrow>
                           save now
                             (extractTranscriptFromMessages (call\<lparr>transcript := []\<rparr>) messages True)
                             d);
                 d2 = updateStatus now (call_id call) fs (endedErrorMessage fs endReason) d1
             in summarise now (call_id call) (artifact_messages message) d2)
          else if st = ''failed'' \<or> st = ''busy'' \<or> st = ''no-answer'' then
            (let fs = (if st = ''no-answer'' then NO_ANSWER else FAILED);
                 d1 = updateStatus now (call_id call) fs
                        (Some (failedErrorMessage st (endedReason message))) d
             in summarise now (call_id call) None d1)
          else d)"

definition handleEndOfCallReport :: "int \<Rightarrow> WebhookMessage \<Rightarrow> db \<Rightarrow> db" where
  "handleEndOfCallReport now message d =
     (if \<not> truthyS (call_ref message) then d
      else case getByVapiCallId d (the (call_ref message)) of
        None \<Rightarrow> d
      | Some call \<Rightarrow>
          let (call1, d1) =
                (case artifact_messages message of
                   Some messages \<Rightarrow>
                     if transcript call = []
                     then (let c = extractTranscriptFromMessages call messages True
                           in (c, save now c d))
                     else (call, d)
                 | None \<Rightarrow> (call, d))
          in if summary call1 = None \<and> transcript call1 \<noteq> []
             then summarise now (call_id call1) (artifact_messages message) d1
             else d1)"


text \<open>
  The dispatch of the POST handler on \<open>message.type\<close>: conversation updates are
  skipped, \<open>handleConversationUpdate\<close> is not called.
\<close>

definition vapiRoutes :: "int \<Rightarrow> WebhookMessage \<Rightarrow> db \<Rightarrow> db" where
  "vapiRoutes now message d =
     (if msg_type message = ''status-update'' then handleStatusUpdate now message d
      else if msg_type message = ''end-of-call-report'' then handleEndOfCallReport now message d
      else d)"

section \<open>Signature verification (webhook-verification.ts)\<close>

text \<open>
  \<open>createHmac("sha256", secret).update(payload).digest("hex")\<close> belongs to the
  platform's crypto library; it is the parameter \<open>hmacHex\<close>. \<open>timingSafeEqual\<close>
  throws a \<open>RangeError\<close> on buffers of different lengths; the body of the \<open>try\<close>
  block returns its exception as a value and \<open>verifyVapiSignature\<close> catches it.
\<close>

datatype jsError = RangeError

definition timingSafeEqual :: "string \<Rightarrow> string \<Rightarrow> jsError + bool" where
  "timingSafeEqual a b = (if length a \<noteq> length b then Inl RangeError else Inr (a = b))"

definition verifyTryBlock ::
    "(string \<Rightarrow> string \<Rightarrow> string) \<Rightarrow> string \<Rightarrow> string \<Rightarrow> string \<Rightarrow> jsError + bool" where
  "verifyTryBlock hmacHex payload signature secret =
     (let expectedSignature = hmacHex secret payload;
          signatureBuffer = signature;
          expectedBuffer = expectedSignature
      in if length signatureBuffer \<noteq> length expectedBuffer then Inr False
         else timingSafeEqual signatureBuffer expectedBuffer)"

definition verifyVapiSignature ::
    "(string \<Rightarrow> string \<Rightarrow> string) \<Rightarrow> string \<Rightarrow> string option \<Rightarrow> string \<Rightarrow> bool" where
  "verifyVapiSignature hmacHex payload signature secret =
     (if \<not> truthyS signature then False
      else case verifyTryBlock hmacHex payload (the signature) secret of
             Inl error \<Rightarrow> False
           | Inr b \<Rightarrow> b)"

section \<open>Row-level view of the service operations\<close>

text \<open>Rewriting the row with a given id, and the effect of get, modify, save on a row.\<close>

definition updRow :: "string \<Rightarrow> (Row \<Rightarrow> Row) \<Rightarrow> db \<Rightarrow> db" where
  "updRow i F d = map (\<lambda>r. if row_id r = i then F r else r) d"

definition onRow :: "int \<Rightarrow> (CallEntity \<Rightarrow> CallEntity) \<Rightarrow> Row \<Rightarrow> Row" where
  "onRow now f r = (callToRow ((f (rowToCall r))\<lparr>updatedAt := now\<rparr>))\<lparr>created_at := created_at r\<rparr>"

text \<open>The changes \<open>updateStatus\<close> makes to the fetched call before saving it.\<close>

definition applyStatus :: "int \<Rightarrow> CallStatus \<Rightarrow> string option \<Rightarrow> CallEntity \<Rightarrow> CallEntity" where
  "applyStatus now st errMsg call =
     (let c1 = call\<lparr>status := st, updatedAt := now\<rparr>;
          c2 = (if st = IN_PROGRESS \<and> startedAt c1 = None
                then c1\<lparr>startedAt := Some now\<rparr> else c1);
          c3 = (if (st = COMPLETED \<or> st = FAILED) \<and> completedAt c2 = None
                then c2\<lparr>completedAt := Some now, state := END\<rparr> else c2);
          c4 = (if st = FAILED \<and> truthyS errMsg
                then c3\<lparr>errorMessage := errMsg\<rparr> else c3)
      in c4)"

definition terminal :: "CallStatus \<Rightarrow> bool" where
  "terminal s = (s = COMPLETED \<or> s = FAILED \<or> s = NO_ANSWER \<or> s = VOICEMAIL)"

text \<open>The three steps of an ended status update, and the whole update, on one row.\<close>

definition transcriptStep :: "int \<Rightarrow> VapiMessage list option \<Rightarrow> Row \<Rightarrow> Row" where
  "transcriptStep now artifactMessages =
     (case artifactMessages of
        None \<Rightarrow> (\<lambda>r. r)
      | Some messages \<Rightarrow>
          onRow now (\<lambda>c. extractTranscriptFromMessages (c\<lparr>transcript := []\<rparr>) messages True))"

definition statusStep :: "int \<Rightarrow> CallStatus \<Rightarrow> string option \<Rightarrow> Row \<Rightarrow> Row" where
  "statusStep now st errMsg = onRow now (applyStatus now st errMsg)"

definition summaryStep :: "int \<Rightarrow> VapiMessage list option \<Rightarrow> Row \<Rightarrow> Row" where
  "summaryStep now artifactMessages =
     onRow now (\<lambda>c. c\<lparr>summary := Some (generateCallSummary c artifactMessages), updatedAt := now\<rparr>)"

definition endReasonOf :: "WebhookMessage \<Rightarrow> string" where
  "endReasonOf message =
     (if truthyS (endedReason message) then the (endedReason message) else ''completed'')"

definition endedRow :: "int \<Rightarrow> WebhookMessage \<Rightarrow> Row \<Rightarrow> Row" where
  "endedRow now message r =
     summaryStep now (artifact_messages message)
       (statusStep now (finalStatus (endReasonOf message))
          (endedErrorMessage (finalStatus (endReasonOf message)) (endReasonOf message))
          (transcriptStep now (artifact_messages message) r))"

definition failedRow :: "int \<Rightarrow> WebhookMessage \<Rightarrow> Row \<Rightarrow> Row" where
  "failedRow now message r =
     summaryStep now None
       (statusStep now (if the (msg_status message) = ''no-answer'' then NO_ANSWER else FAILED)
          (Some (failedErrorMessage (the (msg_status message)) (endedReason message))) r)"

definition eventRow :: "int \<Rightarrow> WebhookMessage \<Rightarrow> Row \<Rightarrow> Row" where
  "eventRow now message r =
     (let st = the (msg_status message) in
      if st = ''queued'' \<or> st = ''ringing'' then statusStep now CALLING None r
      else if st = ''in-progress'' then statusStep now IN_PROGRESS None r
      else if st = ''ended'' then endedRow now message r
      else if st = ''failed'' \<or> st = ''busy'' \<or> st = ''no-answer'' then failedRow now message r
      else r)"

section \<open>Concrete records and events used in the examples\<close>

definition exampleRow :: "CallStatus \<Rightarrow> Row" where
  "exampleRow st =
     \<lparr> row_id = ''call-1'',
       vapi_call_id = Some ''vapi-1'',
       lead_first_name = ''Ann'',
       lead_last_name = ''Lee'',
       lead_phone = ''+15551234567'',
       lead_county = ''Travis'',
       lead_state = ''TX'',
       lead_acreage = Some 5,
       lead_property_address = None,
       row_status = st,
       current_state = GREETING,
       row_transcript = [],
       row_summary = None,
       error_message = None,
       created_at = 1000,
       updated_at = 2000,
       started_at = Some 1500,
       ended_at = None \<rparr>"

text \<open>A call that was completed at time 1900.\<close>

definition completedRow :: Row where
  "completedRow = (exampleRow COMPLETED)\<lparr>current_state := END, ended_at := Some 1900\<rparr>"

definition statusEvent :: "string \<Rightarrow> string option \<Rightarrow> VapiMessage list option \<Rightarrow> WebhookMessage" where
  "statusEvent st reason messages =
     \<lparr> msg_type = ''status-update'',
       msg_status = Some st,
       endedReason = reason,
       artifact_messages = messages,
       call_ref = Some ''vapi-1'',
       msg_messages = None,
       conversation = None \<rparr>"

definition fragment :: "string \<Rightarrow> string \<Rightarrow> number option \<Rightarrow> number option \<Rightarrow> VapiMessage" where
  "fragment r text t s =
     \<lparr> m_role = r, m_message = Some text, m_content = None, m_time = t, m_endTime = None,
       m_secondsFromStart = s \<rparr>"


section \<open>Row-level view of the stale-call sweep\<close>

text \<open>What the sweep does to a stale row \<open>r\<close>; the summary is taken from the row as selected.\<close>

definition snapshotSummaryStep :: "int \<Rightarrow> Row \<Rightarrow> Row \<Rightarrow> Row" where
  "snapshotSummaryStep now r =
     onRow now (\<lambda>c. c\<lparr>summary := Some (generateBasicSummary (rowToCall r)), updatedAt := now\<rparr>)"

definition reapRow :: "int \<Rightarrow> nat \<Rightarrow> Row \<Rightarrow> Row" where
  "reapRow now timeoutSeconds r =
     (let r1 = statusStep now FAILED (Some (timeoutMessage timeoutSeconds)) r
      in if row_transcript r \<noteq> [] \<and> row_summary r = None
         then snapshotSummaryStep now r r1 else r1)"

section \<open>Lead data after a save and a fetch\<close>

text \<open>
  What \<open>rowToCall (callToRow call)\<close> has as lead data, for a call with lead data \<open>l\<close>
  and phone \<open>p\<close>.
\<close>

definition reloadedLead :: "LeadData option \<Rightarrow> string \<Rightarrow> LeadData option" where
  "reloadedLead l p =
     Some \<lparr> firstName = leadOr l firstName ''Unknown'',
            lastName = leadOr l lastName [],
            ld_phone = p,
            county = leadOr l county ''Unknown'',
            ld_state = leadOr l ld_state ''Unknown'',
            acreage = orUndefN (case l of None \<Rightarrow> None | Some x \<Rightarrow> orUndefN (acreage x)),
            propertyAddress =
              orUndefS (case l of None \<Rightarrow> None | Some x \<Rightarrow> orUndefS (propertyAddress x)) \<rparr>"

text \<open>A stored call that already has a summary, and the ended event that reaches it.\<close>

definition summarisedRow :: Row where
  "summarisedRow =
     (exampleRow IN_PROGRESS)
       \<lparr>row_summary :=
          Some \<lparr> duration = 0, outcome = ''Call failed or timed out'', interestLevel = COLD,
                 keyPoints = [], nextAction = Some ''Retry call later'',
                 appointmentScheduled = Some False \<rparr>\<rparr>"

section \<open>Messages and transcripts with well-formed and with ASCII text\<close>

definition utf8Text :: "string option \<Rightarrow> bool" where
  "utf8Text x = (case x of None \<Rightarrow> True | Some s \<Rightarrow> utf8 s)"

definition utf8Message :: "VapiMessage \<Rightarrow> bool" where
  "utf8Message m = (utf8 (m_role m) \<and> utf8Text (m_message m) \<and> utf8Text (m_content m))"




section \<open>Facts about the string functions\<close>

lemmas str_eval =
  toLowerCase_def lowerChar_def upperChar_def upperAlphabet_def lowerAlphabet_def

lemma startsWith_prefix: "startsWith s t = prefix t s"
  by (induction s t rule: startsWith.induct) auto

lemma str_includes_sublist: "str_includes s t = sublist t s"
  by (induction s) (auto simp: startsWith_prefix sublist_Cons_right)

lemma str_includes_trans:
  "str_includes s t \<Longrightarrow> str_includes t u \<Longrightarrow> str_includes s u"
  unfolding str_includes_sublist by (rule sublist_order.order_trans)

section \<open>Facts about the table operations\<close>

lemma row_id_onRow: "call_id (f (rowToCall r)) = row_id r \<Longrightarrow> row_id (onRow now f r) = row_id r"
  by (simp add: onRow_def callToRow_def)

lemma find_updRow:
  assumes "\<And>r. row_id (F r) = row_id r"
  shows "find (\<lambda>r. row_id r = j) (updRow i F d) =
         (if j = i then map_option F (find (\<lambda>r. row_id r = i) d) else find (\<lambda>r. row_id r = j) d)"
  by (induction d) (auto simp: updRow_def assms)

lemma ids_updRow:
  assumes "\<And>r. row_id (F r) = row_id r"
  shows "map row_id (updRow i F d) = map row_id d"
  by (induction d) (auto simp: updRow_def assms)

lemma updRow_updRow:
  assumes "\<And>r. row_id (G r) = row_id r"
  shows "updRow i F (updRow i G d) = updRow i (F \<circ> G) d"
  by (induction d) (auto simp: updRow_def assms)

lemma updRow_absent: "find (\<lambda>r. row_id r = i) d = None \<Longrightarrow> updRow i F d = d"
  by (induction d) (auto simp: updRow_def split: if_splits)

lemma find_unique:
  "distinct (map row_id d) \<Longrightarrow> find (\<lambda>r. row_id r = i) d = Some r0 \<Longrightarrow> r \<in> set d
   \<Longrightarrow> row_id r = i \<Longrightarrow> r = r0"
  by (induction d) (auto split: if_splits simp: image_iff)

lemma row_id_callToRow: "row_id (callToRow c) = call_id c"
  by (simp add: callToRow_def)

lemma save_onRow:
  assumes "distinct (map row_id d)" and "find (\<lambda>r. row_id r = i) d = Some r0"
    and "call_id (f (rowToCall r0)) = i"
  shows "save now (f (rowToCall r0)) d = updRow i (onRow now f) d"
proof -
  have uniq: "\<And>r. r \<in> set d \<Longrightarrow> row_id r = i \<Longrightarrow> r = r0"
    using assms(1,2) by (rule find_unique)
  have rid: "row_id (callToRow ((f (rowToCall r0))\<lparr>updatedAt := now\<rparr>)) = i"
    using assms(3) by (simp add: row_id_callToRow)
  show ?thesis
    unfolding save_def updRow_def Let_def rid
  proof (rule map_cong [OF refl])
    fix r assume "r \<in> set d"
    then show "(if row_id r = i
                then (callToRow ((f (rowToCall r0))\<lparr>updatedAt := now\<rparr>))\<lparr>created_at := created_at r\<rparr>
                else r) = (if row_id r = i then onRow now f r else r)"
      using uniq [of r] by (simp add: onRow_def)
  qed
qed

lemma updateStatus_applyStatus:
  "updateStatus now i st e d =
     (case get d i of None \<Rightarrow> d | Some call \<Rightarrow> save now (applyStatus now st e call) d)"
  by (simp only: updateStatus_def applyStatus_def Let_def)

lemma call_id_applyStatus: "call_id (applyStatus now st e c) = call_id c"
  by (simp add: applyStatus_def Let_def)

lemma find_id: "find (\<lambda>r. row_id r = i) d = Some r0 \<Longrightarrow> row_id r0 = i"
  by (auto simp: find_Some_iff)

lemma updateStatus_updRow:
  assumes "distinct (map row_id d)"
  shows "updateStatus now i st e d = updRow i (onRow now (applyStatus now st e)) d"
proof (cases "find (\<lambda>r. row_id r = i) d")
  case None
  then have "get d i = None" by (simp add: get_def)
  then have "updateStatus now i st e d = d"
    by (simp only: updateStatus_applyStatus option.case)
  with None show ?thesis by (simp only: updRow_absent)
next
  case (Some r0)
  then have g: "get d i = Some (rowToCall r0)" by (simp add: get_def)
  have "row_id r0 = i" using Some by (rule find_id)
  then have "call_id (applyStatus now st e (rowToCall r0)) = i"
    by (simp add: call_id_applyStatus rowToCall_def)
  with assms Some
  have "save now (applyStatus now st e (rowToCall r0)) d = updRow i (onRow now (applyStatus now st e)) d"
    by (rule save_onRow)
  with g show ?thesis
    by (simp only: updateStatus_applyStatus option.case)
qed

lemma addSummary_updRow:
  assumes "distinct (map row_id d)"
  shows "addSummary now i s d = updRow i (onRow now (\<lambda>c. c\<lparr>summary := Some s, updatedAt := now\<rparr>)) d"
proof (cases "find (\<lambda>r. row_id r = i) d")
  case None
  then have "get d i = None" by (simp add: get_def)
  then have "addSummary now i s d = d"
    by (simp only: addSummary_def option.case)
  with None show ?thesis by (simp only: updRow_absent)
next
  case (Some r0)
  then have g: "get d i = Some (rowToCall r0)" by (simp add: get_def)
  have "row_id r0 = i" using Some by (rule find_id)
  then have "call_id ((\<lambda>c. c\<lparr>summary := Some s, updatedAt := now\<rparr>) (rowToCall r0)) = i"
    by (simp add: rowToCall_def)
  with assms Some
  have "save now ((\<lambda>c. c\<lparr>summary := Some s, updatedAt := now\<rparr>) (rowToCall r0)) d
        = updRow i (onRow now (\<lambda>c. c\<lparr>summary := Some s, updatedAt := now\<rparr>)) d"
    by (rule save_onRow)
  with g show ?thesis
    by (simp only: addSummary_def option.case)
qed

lemma summarise_updRow:
  assumes "distinct (map row_id d)"
  shows "summarise now i a d
         = updRow i (onRow now (\<lambda>c. c\<lparr>summary := Some (generateCallSummary c a), updatedAt := now\<rparr>)) d"
proof (cases "find (\<lambda>r. row_id r = i) d")
  case None
  then have "get d i = None" by (simp add: get_def)
  then have "summarise now i a d = d"
    by (simp only: summarise_def option.case)
  with None show ?thesis by (simp only: updRow_absent)
next
  case (Some r0)
  let ?f = "\<lambda>c. c\<lparr>summary := Some (generateCallSummary c a), updatedAt := now\<rparr>"
  from Some have g: "get d i = Some (rowToCall r0)" by (simp add: get_def)
  have rid: "row_id r0 = i" using Some by (rule find_id)
  then have cid: "call_id (rowToCall r0) = i" by (simp add: rowToCall_def)
  then have "call_id (?f (rowToCall r0)) = i" by simp
  with assms Some
  have sv: "save now (?f (rowToCall r0)) d = updRow i (onRow now ?f) d"
    by (rule save_onRow)
  have "summarise now i a d
        = addSummary now i (generateCallSummary (rowToCall r0) a) d"
    using g cid by (simp only: summarise_def option.case)
  also have "\<dots> = save now (?f (rowToCall r0)) d"
    using g by (simp only: addSummary_def option.case)
  finally show ?thesis using sv by simp
qed

lemma call_id_rowToCall: "call_id (rowToCall r) = row_id r"
  by (simp add: rowToCall_def)

lemma call_id_extract: "call_id (extractTranscriptFromMessages c ms b) = call_id c"
  by (simp add: extractTranscriptFromMessages_def Let_def)

lemma row_id_transcriptStep: "row_id (transcriptStep now a r) = row_id r"
  by (cases a) (simp_all add: transcriptStep_def row_id_onRow call_id_extract call_id_rowToCall)

lemma row_id_statusStep: "row_id (statusStep now st e r) = row_id r"
  by (simp add: statusStep_def row_id_onRow call_id_applyStatus call_id_rowToCall)

lemma row_id_summaryStep: "row_id (summaryStep now a r) = row_id r"
  by (simp add: summaryStep_def row_id_onRow call_id_rowToCall)

lemma find_member_id:
  "distinct (map row_id d) \<Longrightarrow> r0 \<in> set d \<Longrightarrow> find (\<lambda>r. row_id r = row_id r0) d = Some r0"
  by (induction d) (auto simp: image_iff)

lemma find_member: "find P d = Some r0 \<Longrightarrow> r0 \<in> set d"
  by (auto simp: find_Some_iff)

lemma updRow_id: "updRow i (\<lambda>r. r) d = d"
  by (induction d) (auto simp: updRow_def)

lemma statusUpdate_updRow:
  assumes "distinct (map row_id d)"
  shows "updateStatus now i st e d = updRow i (statusStep now st e) d"
  using assms unfolding statusStep_def by (rule updateStatus_updRow)

lemma summarise_summaryStep:
  assumes "distinct (map row_id d)"
  shows "summarise now i a d = updRow i (summaryStep now a) d"
  using assms unfolding summaryStep_def by (rule summarise_updRow)

lemma transcript_save_updRow:
  assumes dist: "distinct (map row_id d)" and r0: "r0 \<in> set d"
  shows "(case a of None \<Rightarrow> d
          | Some messages \<Rightarrow>
              save now (extractTranscriptFromMessages ((rowToCall r0)\<lparr>transcript := []\<rparr>) messages True) d)
         = updRow (row_id r0) (transcriptStep now a) d"
proof (cases a)
  case None
  then show ?thesis by (simp add: transcriptStep_def updRow_id)
next
  case (Some ms)
  let ?f = "\<lambda>c. extractTranscriptFromMessages (c\<lparr>transcript := []\<rparr>) ms True"
  have f: "find (\<lambda>r. row_id r = row_id r0) d = Some r0"
    using dist r0 by (rule find_member_id)
  have "call_id (?f (rowToCall r0)) = row_id r0"
    by (simp add: call_id_extract call_id_rowToCall)
  with dist f have "save now (?f (rowToCall r0)) d = updRow (row_id r0) (onRow now ?f) d"
    by (rule save_onRow)
  with Some show ?thesis by (simp add: transcriptStep_def)
qed

lemma ended_updRow:
  assumes dist: "distinct (map row_id d)" and r0: "r0 \<in> set d"
  shows "summarise now (row_id r0) (artifact_messages m)
           (updateStatus now (row_id r0) fs e
              (case artifact_messages m of None \<Rightarrow> d
               | Some messages \<Rightarrow>
                   save now (extractTranscriptFromMessages ((rowToCall r0)\<lparr>transcript := []\<rparr>) messages True) d))
         = updRow (row_id r0)
             (\<lambda>r. summaryStep now (artifact_messages m)
                    (statusStep now fs e (transcriptStep now (artifact_messages m) r))) d"
proof -
  let ?i = "row_id r0"
  let ?T = "transcriptStep now (artifact_messages m)"
  let ?S = "statusStep now fs e"
  let ?U = "summaryStep now (artifact_messages m)"
  have d1: "(case artifact_messages m of None \<Rightarrow> d
        | Some messages \<Rightarrow>
            save now (extractTranscriptFromMessages ((rowToCall r0)\<lparr>transcript := []\<rparr>) messages True) d)
        = updRow ?i ?T d"
    using dist r0 by (rule transcript_save_updRow)
  have dist1: "distinct (map row_id (updRow ?i ?T d))"
    using dist by (simp add: ids_updRow row_id_transcriptStep)
  have d2: "updateStatus now ?i fs e (updRow ?i ?T d) = updRow ?i (?S \<circ> ?T) d"
    using dist1 by (simp add: statusUpdate_updRow updRow_updRow row_id_transcriptStep)
  have dist2: "distinct (map row_id (updRow ?i (?S \<circ> ?T) d))"
    using dist by (simp add: ids_updRow row_id_transcriptStep row_id_statusStep)
  have d3: "summarise now ?i (artifact_messages m) (updRow ?i (?S \<circ> ?T) d)
            = updRow ?i (?U \<circ> (?S \<circ> ?T)) d"
    using dist2
    by (simp add: summarise_summaryStep updRow_updRow row_id_transcriptStep row_id_statusStep)
  show ?thesis
    unfolding d1 d2 d3 by (simp add: comp_def)
qed

lemma failed_updRow:
  assumes dist: "distinct (map row_id d)"
  shows "summarise now i None (updateStatus now i fs e d)
         = updRow i (\<lambda>r. summaryStep now None (statusStep now fs e r)) d"
proof -
  have d1: "updateStatus now i fs e d = updRow i (statusStep now fs e) d"
    using dist by (rule statusUpdate_updRow)
  have dist1: "distinct (map row_id (updRow i (statusStep now fs e) d))"
    using dist by (simp add: ids_updRow row_id_statusStep)
  show ?thesis
    unfolding d1 using dist1
    by (simp add: summarise_summaryStep updRow_updRow row_id_statusStep comp_def)
qed

lemma handleStatusUpdate_updRow:
  assumes dist: "distinct (map row_id d)"
    and found: "find (\<lambda>r. vapi_call_id r = Some v) d = Some r0"
    and ref: "call_ref m = Some v" "v \<noteq> []"
    and st: "truthyS (msg_status m)"
  shows "handleStatusUpdate now m d = updRow (row_id r0) (eventRow now m) d"
proof -
  have r0: "r0 \<in> set d" using found by (rule find_member)
  have g: "getByVapiCallId d (the (call_ref m)) = Some (rowToCall r0)"
    using found ref by (simp add: getByVapiCallId_def)
  have tr: "truthyS (call_ref m)" using ref by simp
  have ended: "summarise now (row_id r0) (artifact_messages m)
           (updateStatus now (row_id r0) (finalStatus (endReasonOf m))
              (endedErrorMessage (finalStatus (endReasonOf m)) (endReasonOf m))
              (case artifact_messages m of None \<Rightarrow> d
               | Some messages \<Rightarrow>
                   save now (extractTranscriptFromMessages ((rowToCall r0)\<lparr>transcript := []\<rparr>) messages True) d))
         = updRow (row_id r0) (endedRow now m) d"
    unfolding endedRow_def [abs_def] using dist r0 by (rule ended_updRow)
  have failed: "summarise now (row_id r0) None
           (updateStatus now (row_id r0)
              (if the (msg_status m) = ''no-answer'' then NO_ANSWER else FAILED)
              (Some (failedErrorMessage (the (msg_status m)) (endedReason m))) d)
         = updRow (row_id r0) (failedRow now m) d"
    unfolding failedRow_def [abs_def] using dist by (rule failed_updRow)
  have ev: "updRow (row_id r0) (eventRow now m) d =
     (let st = the (msg_status m) in
      if st = ''queued'' \<or> st = ''ringing'' then updRow (row_id r0) (statusStep now CALLING None) d
      else if st = ''in-progress'' then updRow (row_id r0) (statusStep now IN_PROGRESS None) d
      else if st = ''ended'' then updRow (row_id r0) (endedRow now m) d
      else if st = ''failed'' \<or> st = ''busy'' \<or> st = ''no-answer'' then updRow (row_id r0) (failedRow now m) d
      else d)"
    by (simp add: eventRow_def [abs_def] Let_def updRow_id)
  show ?thesis
    unfolding ev
    unfolding handleStatusUpdate_def
    using tr st g ended failed dist
    by (simp add: Let_def call_id_rowToCall statusUpdate_updRow endReasonOf_def)
qed

section \<open>Fields of a row after each step\<close>

lemma orUndefS_idem: "orUndefS (orUndefS x) = orUndefS x"
  by (simp add: orUndefS_def)

lemma orUndefN_idem: "orUndefN (orUndefN x) = orUndefN x"
  by (simp add: orUndefN_def)

lemma orUndefS_truthy: "truthyS x \<Longrightarrow> orUndefS x = x"
  by (simp add: orUndefS_def)

lemma status_onRow: "row_status (onRow now f r) = status (f (rowToCall r))"
  by (simp add: onRow_def callToRow_def)

lemma transcript_onRow: "row_transcript (onRow now f r) = transcript (f (rowToCall r))"
  by (simp add: onRow_def callToRow_def)

lemma summary_onRow: "row_summary (onRow now f r) = summary (f (rowToCall r))"
  by (simp add: onRow_def callToRow_def)

lemma state_onRow: "current_state (onRow now f r) = state (f (rowToCall r))"
  by (simp add: onRow_def callToRow_def)

lemma error_onRow: "error_message (onRow now f r) = orUndefS (errorMessage (f (rowToCall r)))"
  by (simp add: onRow_def callToRow_def)

lemma ended_onRow: "ended_at (onRow now f r) = completedAt (f (rowToCall r))"
  by (simp add: onRow_def callToRow_def)

lemma started_onRow: "started_at (onRow now f r) = startedAt (f (rowToCall r))"
  by (simp add: onRow_def callToRow_def)

lemma vapi_onRow: "vapi_call_id (onRow now f r) = orUndefS (vapiCallId (f (rowToCall r)))"
  by (simp add: onRow_def callToRow_def)

lemma status_applyStatus: "status (applyStatus now st e c) = st"
  by (simp add: applyStatus_def Let_def)

lemma transcript_applyStatus: "transcript (applyStatus now st e c) = transcript c"
  by (simp add: applyStatus_def Let_def)

lemma summary_applyStatus: "summary (applyStatus now st e c) = summary c"
  by (simp add: applyStatus_def Let_def)

lemma vapiCallId_applyStatus: "vapiCallId (applyStatus now st e c) = vapiCallId c"
  by (simp add: applyStatus_def Let_def)

lemma errorMessage_applyStatus:
  "errorMessage (applyStatus now st e c) = (if st = FAILED \<and> truthyS e then e else errorMessage c)"
  by (simp add: applyStatus_def Let_def)

lemma state_applyStatus:
  "state (applyStatus now st e c) =
     (if (st = COMPLETED \<or> st = FAILED) \<and> completedAt c = None then END else state c)"
  by (simp add: applyStatus_def Let_def)

lemma completedAt_applyStatus:
  "completedAt (applyStatus now st e c) =
     (if (st = COMPLETED \<or> st = FAILED) \<and> completedAt c = None then Some now else completedAt c)"
  by (simp add: applyStatus_def Let_def)

lemma startedAt_applyStatus:
  "startedAt (applyStatus now st e c) =
     (if st = IN_PROGRESS \<and> startedAt c = None then Some now else startedAt c)"
  by (simp add: applyStatus_def Let_def)

lemma leadData_applyStatus: "leadData (applyStatus now st e c) = leadData c"
  by (simp add: applyStatus_def Let_def)

lemma status_statusStep: "row_status (statusStep now st e r) = st"
  by (simp add: statusStep_def status_onRow status_applyStatus)

lemma status_summaryStep: "row_status (summaryStep now a r) = row_status r"
  by (simp add: summaryStep_def status_onRow rowToCall_def)

lemma status_transcriptStep: "row_status (transcriptStep now a r) = row_status r"
  by (cases a)
     (simp_all add: transcriptStep_def status_onRow extractTranscriptFromMessages_def
        Let_def rowToCall_def)

lemma transcript_statusStep: "row_transcript (statusStep now st e r) = row_transcript r"
  by (simp add: statusStep_def transcript_onRow transcript_applyStatus rowToCall_def)

lemma transcript_summaryStep: "row_transcript (summaryStep now a r) = row_transcript r"
  by (simp add: summaryStep_def transcript_onRow rowToCall_def)

lemma transcript_transcriptStep:
  "row_transcript (transcriptStep now a r) =
     (case a of None \<Rightarrow> row_transcript r
      | Some ms \<Rightarrow> sort_key sortTime (map toTranscript (validMessages ms)))"
  by (cases a)
     (simp_all add: transcriptStep_def transcript_onRow extractTranscriptFromMessages_def Let_def)

lemma error_statusStep:
  "error_message (statusStep now st e r) =
     (if st = FAILED \<and> truthyS e then e else orUndefS (error_message r))"
  by (simp add: statusStep_def error_onRow errorMessage_applyStatus orUndefS_truthy
      orUndefS_idem rowToCall_def)



lemma summary_summaryStep:
  "row_summary (summaryStep now a r) = Some (generateCallSummary (rowToCall r) a)"
  by (simp add: summaryStep_def summary_onRow)

lemma state_statusStep:
  "current_state (statusStep now st e r) =
     (if (st = COMPLETED \<or> st = FAILED) \<and> orUndefN (ended_at r) = None then END
      else current_state r)"
  by (simp add: statusStep_def state_onRow state_applyStatus rowToCall_def)

lemma state_summaryStep: "current_state (summaryStep now a r) = current_state r"
  by (simp add: summaryStep_def state_onRow rowToCall_def)

lemma state_transcriptStep: "current_state (transcriptStep now a r) = current_state r"
  by (cases a)
     (simp_all add: transcriptStep_def state_onRow extractTranscriptFromMessages_def
        Let_def rowToCall_def)

lemma ended_statusStep:
  "ended_at (statusStep now st e r) =
     (if (st = COMPLETED \<or> st = FAILED) \<and> orUndefN (ended_at r) = None then Some now
      else orUndefN (ended_at r))"
  by (simp add: statusStep_def ended_onRow completedAt_applyStatus rowToCall_def)

lemma ended_summaryStep: "ended_at (summaryStep now a r) = orUndefN (ended_at r)"
  by (simp add: summaryStep_def ended_onRow rowToCall_def)

lemma ended_transcriptStep: "orUndefN (ended_at (transcriptStep now a r)) = orUndefN (ended_at r)"
  by (cases a)
     (simp_all add: transcriptStep_def ended_onRow extractTranscriptFromMessages_def
        Let_def rowToCall_def orUndefN_idem)

section \<open>Looking a call up after a status update\<close>

lemma getByVapiCallId_Some:
  assumes "getByVapiCallId d v = Some call"
  obtains r0 where "find (\<lambda>r. vapi_call_id r = Some v) d = Some r0" and "call = rowToCall r0"
  using assms by (auto simp: getByVapiCallId_def)

lemma get_updRow:
  assumes "\<And>r. row_id (F r) = row_id r" and "find (\<lambda>r. row_id r = i) d = Some r0"
  shows "get (updRow i F d) i = Some (rowToCall (F r0))"
  using assms by (simp add: get_def find_updRow)

lemma row_id_endedRow: "row_id (endedRow now m r) = row_id r"
  by (simp add: endedRow_def row_id_summaryStep row_id_statusStep row_id_transcriptStep)

lemma row_id_failedRow: "row_id (failedRow now m r) = row_id r"
  by (simp add: failedRow_def row_id_summaryStep row_id_statusStep)

lemma row_id_eventRow: "row_id (eventRow now m r) = row_id r"
  by (simp add: eventRow_def Let_def row_id_endedRow row_id_failedRow row_id_statusStep)

lemma get_handleStatusUpdate:
  assumes dist: "distinct (map row_id d)"
    and found: "find (\<lambda>r. vapi_call_id r = Some v) d = Some r0"
    and ref: "call_ref m = Some v" "v \<noteq> []"
    and st: "truthyS (msg_status m)"
  shows "get (handleStatusUpdate now m d) (row_id r0) = Some (rowToCall (eventRow now m r0))"
proof -
  have "r0 \<in> set d" using found by (rule find_member)
  with dist have "find (\<lambda>r. row_id r = row_id r0) d = Some r0" by (rule find_member_id)
  then have "get (updRow (row_id r0) (eventRow now m) d) (row_id r0)
             = Some (rowToCall (eventRow now m r0))"
    by (rule get_updRow [OF row_id_eventRow])
  then show ?thesis
    using handleStatusUpdate_updRow [OF dist found ref st] by simp
qed

lemma status_eventRow:
  "row_status (eventRow now m r) =
     (let st = the (msg_status m) in
      if st = ''queued'' \<or> st = ''ringing'' then CALLING
      else if st = ''in-progress'' then IN_PROGRESS
      else if st = ''ended'' then finalStatus (endReasonOf m)
      else if st = ''no-answer'' then NO_ANSWER
      else if st = ''failed'' \<or> st = ''busy'' then FAILED
      else row_status r)"
  by (simp add: eventRow_def endedRow_def failedRow_def Let_def status_statusStep
      status_summaryStep)

lemma status_rowToCall: "status (rowToCall r) = row_status r"
  by (simp add: rowToCall_def)

lemma transcript_rowToCall: "transcript (rowToCall r) = row_transcript r"
  by (simp add: rowToCall_def)

lemma summary_rowToCall: "summary (rowToCall r) = row_summary r"
  by (simp add: rowToCall_def)

lemma state_rowToCall: "state (rowToCall r) = current_state r"
  by (simp add: rowToCall_def)


lemma completedAt_rowToCall: "completedAt (rowToCall r) = orUndefN (ended_at r)"
  by (simp add: rowToCall_def)

section \<open>The stale-call sweep\<close>

lemma row_id_snapshotSummaryStep: "row_id (snapshotSummaryStep now r x) = row_id x"
  by (simp add: snapshotSummaryStep_def row_id_onRow call_id_rowToCall)

lemma row_id_reapRow: "row_id (reapRow now T r) = row_id r"
  by (simp add: reapRow_def Let_def row_id_snapshotSummaryStep row_id_statusStep)

lemma addSummary_snapshot:
  assumes "distinct (map row_id d)"
  shows "addSummary now i (generateBasicSummary (rowToCall r)) d
         = updRow i (snapshotSummaryStep now r) d"
  using assms unfolding snapshotSummaryStep_def by (rule addSummary_updRow)

lemma failStale_updRow:
  assumes dist: "distinct (map row_id d)" and r: "r \<in> set d"
  shows "failStale now T (rowToCall r) d = updRow (row_id r) (\<lambda>x. if x = r then reapRow now T r else x) d"
proof -
  let ?S = "statusStep now FAILED (Some (timeoutMessage T))"
  have d1: "updateStatus now (row_id r) FAILED (Some (timeoutMessage T)) d = updRow (row_id r) ?S d"
    using dist by (rule statusUpdate_updRow)
  have dist1: "distinct (map row_id (updRow (row_id r) ?S d))"
    using dist by (simp add: ids_updRow row_id_statusStep)
  have d2: "addSummary now (row_id r) (generateBasicSummary (rowToCall r)) (updRow (row_id r) ?S d)
            = updRow (row_id r) (snapshotSummaryStep now r \<circ> ?S) d"
    using dist1 by (simp add: addSummary_snapshot updRow_updRow row_id_statusStep)
  have uniq: "\<And>x. x \<in> set d \<Longrightarrow> row_id x = row_id r \<Longrightarrow> x = r"
    using dist r by (meson distinct_map inj_onD)
  have fs: "failStale now T (rowToCall r) d =
        (if row_transcript r \<noteq> [] \<and> row_summary r = None
         then updRow (row_id r) (snapshotSummaryStep now r \<circ> ?S) d
         else updRow (row_id r) ?S d)"
    unfolding failStale_def Let_def call_id_rowToCall transcript_rowToCall summary_rowToCall d1
    by (simp add: d2)
  show ?thesis
  proof (cases "row_transcript r \<noteq> [] \<and> row_summary r = None")
    case True
    then have "failStale now T (rowToCall r) d = updRow (row_id r) (snapshotSummaryStep now r \<circ> ?S) d"
      unfolding fs by (rule if_P)
    also have "\<dots> = updRow (row_id r) (\<lambda>x. if x = r then reapRow now T r else x) d"
      unfolding updRow_def
    proof (rule map_cong [OF refl])
      fix x assume "x \<in> set d"
      then show "(if row_id x = row_id r then (snapshotSummaryStep now r \<circ> ?S) x else x)
                 = (if row_id x = row_id r then if x = r then reapRow now T r else x else x)"
        using uniq [of x] True by (auto simp: reapRow_def Let_def)
    qed
    finally show ?thesis .
  next
    case False
    then have "failStale now T (rowToCall r) d = updRow (row_id r) ?S d"
      unfolding fs by (rule if_not_P)
    also have "\<dots> = updRow (row_id r) (\<lambda>x. if x = r then reapRow now T r else x) d"
      unfolding updRow_def
    proof (rule map_cong [OF refl])
      fix x assume "x \<in> set d"
      then show "(if row_id x = row_id r then ?S x else x)
                 = (if row_id x = row_id r then if x = r then reapRow now T r else x else x)"
        using uniq [of x] False by (auto simp: reapRow_def Let_def)
    qed
    finally show ?thesis .
  qed
qed

lemma sweep_rows:
  assumes "distinct (map row_id d)" and "distinct (map row_id rs)" and "set rs \<subseteq> set d"
  shows "fold (failStale now T) (map rowToCall rs) d
         = map (\<lambda>x. if x \<in> set rs then reapRow now T x else x) d"
  using assms
proof (induction rs arbitrary: d)
  case Nil
  then show ?case by simp
next
  case (Cons r rs)
  let ?d' = "updRow (row_id r) (\<lambda>x. if x = r then reapRow now T r else x) d"
  have r: "r \<in> set d" using Cons.prems(3) by simp
  have step: "failStale now T (rowToCall r) d = ?d'"
    using Cons.prems(1) r by (rule failStale_updRow)
  have idp: "\<And>x. row_id (if x = r then reapRow now T r else x) = row_id x"
    by (simp add: row_id_reapRow)
  have dist': "distinct (map row_id ?d')"
    using Cons.prems(1) by (simp add: ids_updRow [OF idp])
  have notin: "row_id r \<notin> row_id ` set rs" using Cons.prems(2) by simp
  have sub': "set rs \<subseteq> set ?d'"
  proof
    fix y assume y: "y \<in> set rs"
    then have "y \<in> set d" using Cons.prems(3) by auto
    moreover have "row_id y \<noteq> row_id r" using y notin by (metis imageI)
    ultimately show "y \<in> set ?d'"
      by (auto simp: updRow_def image_iff intro!: bexI [of _ y])
  qed
  have uniq: "\<And>x. x \<in> set d \<Longrightarrow> row_id x = row_id r \<Longrightarrow> x = r"
    using Cons.prems(1) r by (meson distinct_map inj_onD)
  have reap_notin: "reapRow now T r \<notin> set rs"
    using notin by (metis image_eqI row_id_reapRow)
  have r_notin: "r \<notin> set rs" using notin by auto
  have "fold (failStale now T) (map rowToCall (r # rs)) d
        = fold (failStale now T) (map rowToCall rs) ?d'"
    by (simp add: step)
  also have "\<dots> = map (\<lambda>x. if x \<in> set rs then reapRow now T x else x) ?d'"
    using dist' _ sub' by (rule Cons.IH) (use Cons.prems(2) in simp)
  also have "\<dots> = map (\<lambda>x. if x \<in> set (r # rs) then reapRow now T x else x) d"
    unfolding updRow_def map_map
  proof (rule map_cong [OF refl])
    fix x assume x: "x \<in> set d"
    show "((\<lambda>x. if x \<in> set rs then reapRow now T x else x) \<circ>
           (\<lambda>ra. if row_id ra = row_id r then if ra = r then reapRow now T r else ra else ra)) x
          = (if x \<in> set (r # rs) then reapRow now T x else x)"
      using uniq [OF x] reap_notin r_notin by auto
  qed
  finally show ?case .
qed

lemma markStale_rows:
  assumes "distinct (map row_id d)"
  shows "markStaleCallsAsFailed now T d
         = (length (filter (isStale now T) d),
            map (\<lambda>r. if isStale now T r then reapRow now T r else r) d)"
proof -
  have "fold (failStale now T) (map rowToCall (filter (isStale now T) d)) d
        = map (\<lambda>x. if x \<in> set (filter (isStale now T) d) then reapRow now T x else x) d"
    using assms by (intro sweep_rows) (simp_all add: distinct_map_filter)
  also have "\<dots> = map (\<lambda>r. if isStale now T r then reapRow now T r else r) d"
    by (rule map_cong [OF refl]) simp
  finally show ?thesis
    by (simp add: markStaleCallsAsFailed_def Let_def)
qed

lemma timeoutMessage_nonempty: "timeoutMessage T \<noteq> []"
  by (simp add: timeoutMessage_def)

lemma status_snapshotSummaryStep: "row_status (snapshotSummaryStep now r x) = row_status x"
  by (simp add: snapshotSummaryStep_def status_onRow rowToCall_def)

lemma error_snapshotSummaryStep:
  "error_message (snapshotSummaryStep now r x) = orUndefS (error_message x)"
  by (simp add: snapshotSummaryStep_def error_onRow rowToCall_def orUndefS_idem)

lemma summary_snapshotSummaryStep:
  "row_summary (snapshotSummaryStep now r x) = Some (generateBasicSummary (rowToCall r))"
  by (simp add: snapshotSummaryStep_def summary_onRow)

lemma summary_statusStep: "row_summary (statusStep now st e r) = row_summary r"
  by (simp add: statusStep_def summary_onRow summary_applyStatus rowToCall_def)

lemma status_reapRow: "row_status (reapRow now T r) = FAILED"
  by (simp add: reapRow_def Let_def status_snapshotSummaryStep status_statusStep)

lemma error_reapRow: "error_message (reapRow now T r) = Some (timeoutMessage T)"
  by (simp add: reapRow_def Let_def error_snapshotSummaryStep error_statusStep
      timeoutMessage_nonempty orUndefS_def)

lemma summary_reapRow:
  "row_summary (reapRow now T r) =
     (if row_transcript r \<noteq> [] \<and> row_summary r = None
      then Some (generateBasicSummary (rowToCall r)) else row_summary r)"
  by (simp add: reapRow_def Let_def summary_snapshotSummaryStep summary_statusStep)

lemma find_map_same_id:
  assumes "\<And>r. row_id (F r) = row_id r"
  shows "find (\<lambda>x. row_id x = i) (map F d) = map_option F (find (\<lambda>x. row_id x = i) d)"
  by (induction d) (simp_all add: assms)

section \<open>Facts about trimming and stable sorting\<close>














section \<open>The real-time merge of transcript fragments\<close>










section \<open>What a summary is generated from\<close>

lemma timestampDuration_cong:
  "startedAt c = startedAt c' \<Longrightarrow> completedAt c = completedAt c'
   \<Longrightarrow> timestampDuration c = timestampDuration c'"
  by (simp add: timestampDuration_def)

lemma extractKeyPoints_cong:
  "transcript c = transcript c' \<Longrightarrow> state c = state c' \<Longrightarrow> leadData c = leadData c'
   \<Longrightarrow> extractKeyPoints c = extractKeyPoints c'"
  by (simp add: extractKeyPoints_def)

lemma determineOutcome_cong: "state c = state c' \<Longrightarrow> determineOutcome c il = determineOutcome c' il"
  by (simp add: determineOutcome_def)

lemma determineNextAction_cong:
  "state c = state c' \<Longrightarrow> determineNextAction c il = determineNextAction c' il"
  by (simp add: determineNextAction_def)

lemma generateCallSummary_cong:
  assumes "transcript c = transcript c'" and "state c = state c'" and "leadData c = leadData c'"
    and "startedAt c = startedAt c'" and "completedAt c = completedAt c'"
  shows "generateCallSummary c a = generateCallSummary c' a"
proof -
  have t: "timestampDuration c = timestampDuration c'"
    using assms(4,5) by (rule timestampDuration_cong)
  have k: "extractKeyPoints c = extractKeyPoints c'"
    using assms(1,2,3) by (rule extractKeyPoints_cong)
  have o: "\<And>il. determineOutcome c il = determineOutcome c' il"
    using assms(2) by (rule determineOutcome_cong)
  have n: "\<And>il. determineNextAction c il = determineNextAction c' il"
    using assms(2) by (rule determineNextAction_cong)
  show ?thesis
    unfolding generateCallSummary_def t k o n assms(1) assms(2) ..
qed

lemma leadData_reload:
  "leadData (rowToCall ((callToRow (c\<lparr>updatedAt := n\<rparr>))\<lparr>created_at := k\<rparr>))
   = reloadedLead (leadData c) (phone c)"
  by (simp add: rowToCall_def callToRow_def reloadedLead_def)

lemma phone_reload:
  "phone (rowToCall ((callToRow (c\<lparr>updatedAt := n\<rparr>))\<lparr>created_at := k\<rparr>)) = phone c"
  by (simp add: rowToCall_def callToRow_def)

lemma reloadedLead_idem: "reloadedLead (reloadedLead l p) p = reloadedLead l p"
  by (simp add: reloadedLead_def leadOr_def orUndefN_def orUndefS_def split: option.splits)

lemma leadData_onRow:
  "leadData (rowToCall (onRow now f r))
   = reloadedLead (leadData (f (rowToCall r))) (phone (f (rowToCall r)))"
  unfolding onRow_def by (rule leadData_reload)

lemma phone_onRow: "phone (rowToCall (onRow now f r)) = phone (f (rowToCall r))"
  unfolding onRow_def by (rule phone_reload)

lemma phone_applyStatus: "phone (applyStatus now st e c) = phone c"
  by (simp add: applyStatus_def Let_def)

lemma leadData_extract: "leadData (extractTranscriptFromMessages c ms b) = leadData c"
  by (simp add: extractTranscriptFromMessages_def Let_def)

lemma phone_extract: "phone (extractTranscriptFromMessages c ms b) = phone c"
  by (simp add: extractTranscriptFromMessages_def Let_def)

lemma startedAt_extract: "startedAt (extractTranscriptFromMessages c ms b) = startedAt c"
  by (simp add: extractTranscriptFromMessages_def Let_def)

lemma vapiCallId_extract: "vapiCallId (extractTranscriptFromMessages c ms b) = vapiCallId c"
  by (simp add: extractTranscriptFromMessages_def Let_def)

text \<open>The lead data of a row as a fetch, a save and another fetch give it.\<close>

lemma lead_statusStep:
  "leadData (rowToCall (statusStep now st e r))
   = reloadedLead (leadData (rowToCall r)) (phone (rowToCall r))"
  by (simp add: statusStep_def leadData_onRow leadData_applyStatus phone_applyStatus)

lemma phone_statusStep: "phone (rowToCall (statusStep now st e r)) = phone (rowToCall r)"
  by (simp add: statusStep_def phone_onRow phone_applyStatus)

lemma lead_summaryStep:
  "leadData (rowToCall (summaryStep now a r))
   = reloadedLead (leadData (rowToCall r)) (phone (rowToCall r))"
  by (simp add: summaryStep_def leadData_onRow)

lemma phone_summaryStep: "phone (rowToCall (summaryStep now a r)) = phone (rowToCall r)"
  by (simp add: summaryStep_def phone_onRow)

lemma lead_transcriptStep:
  "reloadedLead (leadData (rowToCall (transcriptStep now a r)))
      (phone (rowToCall (transcriptStep now a r)))
   = reloadedLead (leadData (rowToCall r)) (phone (rowToCall r))"
  by (cases a)
     (simp_all add: transcriptStep_def leadData_onRow phone_onRow leadData_extract phone_extract
        reloadedLead_idem)

lemma started_statusStep_terminal:
  "st \<noteq> IN_PROGRESS \<Longrightarrow> started_at (statusStep now st e r) = orUndefN (started_at r)"
  by (simp add: statusStep_def started_onRow startedAt_applyStatus rowToCall_def)

lemma started_summaryStep: "started_at (summaryStep now a r) = orUndefN (started_at r)"
  by (simp add: summaryStep_def started_onRow rowToCall_def)

lemma started_transcriptStep:
  "orUndefN (started_at (transcriptStep now a r)) = orUndefN (started_at r)"
  by (cases a)
     (simp_all add: transcriptStep_def started_onRow startedAt_extract rowToCall_def orUndefN_idem)

lemma vapi_statusStep: "vapi_call_id (statusStep now st e r) = orUndefS (vapi_call_id r)"
  by (simp add: statusStep_def vapi_onRow vapiCallId_applyStatus rowToCall_def orUndefS_idem)

lemma vapi_summaryStep: "vapi_call_id (summaryStep now a r) = orUndefS (vapi_call_id r)"
  by (simp add: summaryStep_def vapi_onRow rowToCall_def orUndefS_idem)

lemma vapi_transcriptStep:
  "orUndefS (vapi_call_id (transcriptStep now a r)) = orUndefS (vapi_call_id r)"
  by (cases a)
     (simp_all add: transcriptStep_def vapi_onRow vapiCallId_extract rowToCall_def orUndefS_idem)

lemma vapi_endedRow:
  "vapi_call_id r = Some v \<Longrightarrow> v \<noteq> [] \<Longrightarrow> vapi_call_id (endedRow now m r) = Some v"
  using vapi_transcriptStep [of now "artifact_messages m" r]
  by (simp add: endedRow_def vapi_summaryStep vapi_statusStep orUndefS_idem orUndefS_def)

lemma startedAt_rowToCall: "startedAt (rowToCall r) = orUndefN (started_at r)"
  by (simp add: rowToCall_def)

section \<open>Interest classification\<close>

text \<open>
  Every transcript that contains the marker "not interested" also contains the HOT
  marker "interested", which both classifiers test first: the NOT_INTERESTED branch
  is never reached through that marker.
\<close>

lemma analyzeInterestLevel_not_interested_is_HOT:
  assumes "str_includes (toLowerCase t) ''not interested''"
  shows "analyzeInterestLevel t = HOT"
proof -
  have "str_includes ''not interested'' ''interested''"
    by simp
  with assms have "str_includes (toLowerCase t) ''interested''"
    by (rule str_includes_trans)
  then show ?thesis
    by (simp add: analyzeInterestLevel_def Let_def)
qed

lemma basicInterestLevel_not_interested_is_HOT:
  assumes "str_includes (toLowerCase t) ''not interested''"
  shows "basicInterestLevel t = HOT"
proof -
  have "str_includes ''not interested'' ''interested''"
    by simp
  with assms have "str_includes (toLowerCase t) ''interested''"
    by (rule str_includes_trans)
  then show ?thesis
    by (simp add: basicInterestLevel_def Let_def)
qed

text \<open>
  Claim C3 (interest-level precedence). The claim says that a transcript containing
  "not interested" is classified NOT_INTERESTED. On the documented test dialogue
  "No, I'm not interested" both classifiers of the code return HOT, because the HOT
  markers are evaluated before the disinterest markers.
\<close>

theorem C3_not_interested_classified_HOT:
  "analyzeInterestLevel ''No, I'm not interested'' = HOT
   \<and> basicInterestLevel ''No, I'm not interested'' = HOT"
  by (simp add: analyzeInterestLevel_def basicInterestLevel_def str_eval)

section \<open>Claims about status updates\<close>

text \<open>
  Claim C1 (terminal monotonicity), as stated, fails: \<open>updateStatus\<close> writes the requested
  status whatever the stored one is. A completed call that receives an in-progress
  signal becomes IN_PROGRESS, and one that receives an ended signal with the end reason
  "voicemail-reached" becomes VOICEMAIL.
\<close>

theorem C1_terminal_status_overwritten:
  "terminal (row_status completedRow)
   \<and> map row_status (vapiRoutes 3000 (statusEvent ''in-progress'' None None) [completedRow])
       = [IN_PROGRESS]
   \<and> map row_status
         (vapiRoutes 3000 (statusEvent ''ended'' (Some ''voicemail-reached'') None) [completedRow])
       = [VOICEMAIL]"
  by code_simp

text \<open>
  Claim C1, amended: a status update for a stored call sets the status to the one the
  signal maps to, whatever the stored status is, terminal or not; a signal with any
  other status string leaves the status as it is. So the status of a terminal record
  is unchanged exactly by the signals that map to the same status again (such as the
  re-delivery of the same terminal signal) and by the signals that are not recognised.
\<close>

theorem C1_status_follows_signal:
  assumes "distinct (map row_id d)"
    and "getByVapiCallId d v = Some call"
    and "call_ref m = Some v" and "v \<noteq> []"
    and "msg_status m = Some st" and "st \<noteq> []"
  shows "map_option status (get (handleStatusUpdate now m d) (call_id call))
         = Some (if st = ''queued'' \<or> st = ''ringing'' then CALLING
                 else if st = ''in-progress'' then IN_PROGRESS
                 else if st = ''ended'' then finalStatus (endReasonOf m)
                 else if st = ''no-answer'' then NO_ANSWER
                 else if st = ''failed'' \<or> st = ''busy'' then FAILED
                 else status call)"
proof -
  from assms(2) obtain r0
    where found: "find (\<lambda>r. vapi_call_id r = Some v) d = Some r0" and call: "call = rowToCall r0"
    by (rule getByVapiCallId_Some)
  have "truthyS (msg_status m)" using assms(5,6) by simp
  with assms(1) found assms(3,4)
  have "get (handleStatusUpdate now m d) (row_id r0) = Some (rowToCall (eventRow now m r0))"
    by (rule get_handleStatusUpdate)
  then show ?thesis
    using assms(5)
    by (simp add: call call_id_rowToCall status_rowToCall status_eventRow Let_def)
qed

theorem C1_status_follows_signal_witness:
  "map_option status
     (get (handleStatusUpdate 3000 (statusEvent ''in-progress'' None None) [completedRow])
        ''call-1'')
   = Some IN_PROGRESS"
proof -
  have d: "distinct (map row_id [completedRow])" by simp
  have g: "getByVapiCallId [completedRow] ''vapi-1'' = Some (rowToCall completedRow)"
    by (simp add: getByVapiCallId_def completedRow_def exampleRow_def)
  have r: "call_ref (statusEvent ''in-progress'' None None) = Some ''vapi-1''"
    by (simp add: statusEvent_def)
  have s: "msg_status (statusEvent ''in-progress'' None None) = Some ''in-progress''"
    by (simp add: statusEvent_def)
  have i: "call_id (rowToCall completedRow) = ''call-1''"
    by (simp add: rowToCall_def completedRow_def exampleRow_def)
  show ?thesis
    using C1_status_follows_signal [OF d g r _ s, of 3000] by (simp add: i)
qed

text \<open>
  Claim C7 (voicemail error message). The claim says that the end reason
  "voicemail-reached" leaves the record with the error message "Call reached
  voicemail". The handler computes that message, but \<open>updateStatus\<close> stores an error
  message for FAILED only: the record is VOICEMAIL with no error message.
\<close>

theorem C7_voicemail_error_message_dropped:
  "endedErrorMessage (finalStatus ''voicemail-reached'') ''voicemail-reached''
     = Some ''Call reached voicemail''
   \<and> map (\<lambda>r. (row_status r, error_message r))
       (vapiRoutes 3000 (statusEvent ''ended'' (Some ''voicemail-reached'') None)
          [exampleRow IN_PROGRESS])
     = [(VOICEMAIL, None)]"
  by code_simp

lemma validMessages_filter:
  "validMessages ms = filter (\<lambda>x. (m_role x = ''user'' \<or> m_role x = ''bot'') \<and> msgText x \<noteq> []) ms"
  by (simp add: validMessages_def conj_commute)

lemma transcript_endedRow:
  "row_transcript (endedRow now m r) =
     (case artifact_messages m of None \<Rightarrow> row_transcript r
      | Some ms \<Rightarrow> sort_key sortTime (map toTranscript (validMessages ms)))"
  by (simp add: endedRow_def transcript_summaryStep transcript_statusStep
      transcript_transcriptStep)

lemma eventRow_ended: "msg_status m = Some ''ended'' \<Longrightarrow> eventRow now m r = endedRow now m r"
  by (simp add: eventRow_def)

text \<open>
  Claim C5 (final-wins transcript replacement): after an ended status update that
  carries an artifact message list (of well-formed strings), the stored transcript is
  that list, filtered to the roles user and bot and to text that is not empty after
  trimming, converted, and sorted by the time key. The transcript stored before does
  not occur in the result.
\<close>

theorem C5_final_transcript_replaces:
  assumes "distinct (map row_id d)"
    and "getByVapiCallId d v = Some call"
    and "call_ref m = Some v" and "v \<noteq> []"
    and "msg_status m = Some ''ended''"
    and "artifact_messages m = Some ms"
    and "list_all utf8Message ms"
  shows "map_option transcript (get (handleStatusUpdate now m d) (call_id call))
         = Some (sort_key sortTime
                   (map toTranscript
                      (filter (\<lambda>x. (m_role x = ''user'' \<or> m_role x = ''bot'') \<and> msgText x \<noteq> [])
                         ms)))"
proof -
  from assms(2) obtain r0
    where found: "find (\<lambda>r. vapi_call_id r = Some v) d = Some r0" and call: "call = rowToCall r0"
    by (rule getByVapiCallId_Some)
  have "truthyS (msg_status m)" using assms(5) by simp
  with assms(1) found assms(3,4)
  have "get (handleStatusUpdate now m d) (row_id r0) = Some (rowToCall (eventRow now m r0))"
    by (rule get_handleStatusUpdate)
  then show ?thesis
    using assms(5,6)
    by (simp add: call call_id_rowToCall transcript_rowToCall eventRow_ended
        transcript_endedRow validMessages_filter)
qed

text \<open>
  An instance: the earlier transcript is gone, the system message, the blank message
  and the message that is a no-break space (U+00A0) are dropped, the text is trimmed,
  and the two remaining messages are in the order of their times.
\<close>

theorem C5_final_transcript_replaces_witness:
  "list_all utf8Message
     [fragment ''bot'' ''  great - let's talk price '' (Some 2) None,
      fragment ''system'' ''prompt'' (Some 0) None,
      fragment ''user'' ''yes I'm interested'' (Some 1) None,
      fragment ''user'' ''   '' (Some 3) None,
      fragment ''user'' [CHR 0xC2, CHR 0xA0] (Some 4) None]
   \<and> map_option transcript
     (get (handleStatusUpdate 3000
             (statusEvent ''ended'' (Some ''customer-ended-call'')
                (Some [fragment ''bot'' ''  great - let's talk price '' (Some 2) None,
                       fragment ''system'' ''prompt'' (Some 0) None,
                       fragment ''user'' ''yes I'm interested'' (Some 1) None,
                       fragment ''user'' ''   '' (Some 3) None,
                       fragment ''user'' [CHR 0xC2, CHR 0xA0] (Some 4) None]))
             [(exampleRow IN_PROGRESS)
                \<lparr>row_transcript :=
                   [\<lparr>t_role = Bot, t_message = ''great, one moment'', t_time = Some 2,
                      t_secondsFromStart = None\<rparr>]\<rparr>])
        ''call-1'')
   = Some [\<lparr>t_role = User, t_message = ''yes I'm interested'', t_time = Some 1,
             t_secondsFromStart = None\<rparr>,
           \<lparr>t_role = Bot, t_message = ''great - let's talk price'', t_time = Some 2,
             t_secondsFromStart = None\<rparr>]"
proof -
  let ?r = "(exampleRow IN_PROGRESS)
                \<lparr>row_transcript :=
                   [\<lparr>t_role = Bot, t_message = ''great, one moment'', t_time = Some 2,
                      t_secondsFromStart = None\<rparr>]\<rparr>"
  let ?ms = "[fragment ''bot'' ''  great - let's talk price '' (Some 2) None,
              fragment ''system'' ''prompt'' (Some 0) None,
              fragment ''user'' ''yes I'm interested'' (Some 1) None,
              fragment ''user'' ''   '' (Some 3) None,
              fragment ''user'' [CHR 0xC2, CHR 0xA0] (Some 4) None]"
  let ?m = "statusEvent ''ended'' (Some ''customer-ended-call'') (Some ?ms)"
  have d: "distinct (map row_id [?r])" by simp
  have g: "getByVapiCallId [?r] ''vapi-1'' = Some (rowToCall ?r)"
    by (simp add: getByVapiCallId_def exampleRow_def)
  have r: "call_ref ?m = Some ''vapi-1''" by (simp add: statusEvent_def)
  have s: "msg_status ?m = Some ''ended''" by (simp add: statusEvent_def)
  have a: "artifact_messages ?m = Some ?ms" by (simp add: statusEvent_def)
  have u: "list_all utf8Message ?ms" by code_simp
  have i: "call_id (rowToCall ?r) = ''call-1''"
    by (simp add: rowToCall_def exampleRow_def)
  have e: "sort_key sortTime
             (map toTranscript
                (filter (\<lambda>x. (m_role x = ''user'' \<or> m_role x = ''bot'') \<and> msgText x \<noteq> []) ?ms))
           = [\<lparr>t_role = User, t_message = ''yes I'm interested'', t_time = Some 1,
                t_secondsFromStart = None\<rparr>,
              \<lparr>t_role = Bot, t_message = ''great - let's talk price'', t_time = Some 2,
                t_secondsFromStart = None\<rparr>]"
    by code_simp
  show ?thesis
    using C5_final_transcript_replaces [OF d g r _ s a u, of 3000] u unfolding i e by simp
qed




lemma status_endedRow: "row_status (endedRow now m r) = finalStatus (endReasonOf m)"
  by (simp add: endedRow_def status_summaryStep status_statusStep)



section \<open>Claims about the stale-call sweep\<close>

text \<open>
  Claim C8 (reaper correctness), as stated, fails in its summary part: a stale call in
  progress that has no transcript and no summary is failed by the sweep and still has
  no summary, because the sweep summarises only calls that have a transcript.
\<close>

theorem C8_stale_call_without_transcript_gets_no_summary:
  "isStale 900000 600 (exampleRow IN_PROGRESS)
   \<and> map row_status (snd (markStaleCallsAsFailed 900000 600 [exampleRow IN_PROGRESS]))
     = [FAILED]
   \<and> map row_summary (snd (markStaleCallsAsFailed 900000 600 [exampleRow IN_PROGRESS]))
     = [None]"
  by code_simp

text \<open>
  Claim C8, amended: after one sweep every stale row (status CALLING or IN_PROGRESS,
  \<open>updated_at\<close> older than the timeout) is FAILED with the non-empty timeout message as
  error message; it has a summary exactly when it had one before or its transcript is
  not empty, and a summary it had before is kept. Every other row is untouched, and
  the sweep returns the number of stale rows.
\<close>

theorem C8_sweep_fails_stale_calls:
  assumes "distinct (map row_id d)" and "r \<in> set d"
  shows "fst (markStaleCallsAsFailed now T d) = length (filter (isStale now T) d)
         \<and> (\<exists>r'. find (\<lambda>x. row_id x = row_id r) (snd (markStaleCallsAsFailed now T d)) = Some r'
              \<and> (if isStale now T r
                  then row_status r' = FAILED
                       \<and> error_message r' = Some (timeoutMessage T)
                       \<and> timeoutMessage T \<noteq> []
                       \<and> (row_summary r' \<noteq> None
                            \<longleftrightarrow> row_summary r \<noteq> None \<or> row_transcript r \<noteq> [])
                       \<and> (row_summary r \<noteq> None \<longrightarrow> row_summary r' = row_summary r)
                  else r' = r))"
proof -
  let ?F = "\<lambda>r. if isStale now T r then reapRow now T r else r"
  have rows: "markStaleCallsAsFailed now T d = (length (filter (isStale now T) d), map ?F d)"
    using assms(1) by (rule markStale_rows)
  have idp: "\<And>x. row_id (?F x) = row_id x"
    by (simp add: row_id_reapRow)
  have "find (\<lambda>x. row_id x = row_id r) d = Some r"
    using assms by (rule find_member_id)
  then have f: "find (\<lambda>x. row_id x = row_id r) (map ?F d) = Some (?F r)"
    by (simp add: find_map_same_id [of ?F, OF idp])
  show ?thesis
    unfolding rows fst_conv snd_conv f
    by (auto simp: status_reapRow error_reapRow summary_reapRow timeoutMessage_nonempty)
qed

text \<open>
  An instance: of a stale call with a transcript and a completed call, the first is
  failed with the timeout message and has a summary, the second is as it was.
\<close>

theorem C8_sweep_fails_stale_calls_witness:
  "isStale 900000 600
     ((exampleRow IN_PROGRESS)\<lparr>row_transcript := [toTranscript (fragment ''user'' ''maybe'' None None)]\<rparr>)
   \<and> fst (markStaleCallsAsFailed 900000 600
          [(exampleRow IN_PROGRESS)\<lparr>row_transcript := [toTranscript (fragment ''user'' ''maybe'' None None)]\<rparr>,
           completedRow\<lparr>row_id := ''call-2''\<rparr>]) = 1
   \<and> map (\<lambda>r. (row_status r, error_message r, row_summary r \<noteq> None))
       (snd (markStaleCallsAsFailed 900000 600
          [(exampleRow IN_PROGRESS)\<lparr>row_transcript := [toTranscript (fragment ''user'' ''maybe'' None None)]\<rparr>,
           completedRow\<lparr>row_id := ''call-2''\<rparr>]))
     = [(FAILED, Some ''Call timed out after 10 minutes without status update'', True),
        (COMPLETED, None, False)]"
proof -
  let ?r = "(exampleRow IN_PROGRESS)\<lparr>row_transcript := [toTranscript (fragment ''user'' ''maybe'' None None)]\<rparr>"
  let ?d = "[?r, completedRow\<lparr>row_id := ''call-2''\<rparr>]"
  have d: "distinct (map row_id ?d)"
    by (simp add: exampleRow_def completedRow_def)
  have r: "?r \<in> set ?d" by simp
  have st: "isStale 900000 600 ?r" by code_simp
  have s: "map row_status (snd (markStaleCallsAsFailed 900000 600 ?d)) = [FAILED, COMPLETED]"
    by code_simp
  have e: "map error_message (snd (markStaleCallsAsFailed 900000 600 ?d))
           = [Some ''Call timed out after 10 minutes without status update'', None]"
    by code_simp
  have n: "map (\<lambda>r. row_summary r \<noteq> None) (snd (markStaleCallsAsFailed 900000 600 ?d))
           = [True, False]"
    by code_simp
  have l: "length (filter (isStale 900000 600) ?d) = 1"
    by code_simp
  have z: "map (\<lambda>r. (row_status r, error_message r, row_summary r \<noteq> None))
             (snd (markStaleCallsAsFailed 900000 600 ?d))
           = zip (map row_status (snd (markStaleCallsAsFailed 900000 600 ?d)))
               (zip (map error_message (snd (markStaleCallsAsFailed 900000 600 ?d)))
                  (map (\<lambda>r. row_summary r \<noteq> None) (snd (markStaleCallsAsFailed 900000 600 ?d))))"
    by (simp add: zip_map_map zip_same_conv_map)
  show ?thesis
    using C8_sweep_fails_stale_calls [OF d r, of 900000 600] st l
    unfolding z s e n by simp
qed

section \<open>Claims about the signature verifier\<close>

lemma verifyTryBlock_returns:
  "verifyTryBlock hmacHex payload sig secret = Inr (sig = hmacHex secret payload)"
  by (auto simp: verifyTryBlock_def timingSafeEqual_def Let_def)

text \<open>
  Claim C10 (the verifier is total): the \<open>try\<close> block never raises, so for every
  payload, signature and secret the verifier returns a boolean; a missing or empty
  signature and a signature whose length differs from the expected digest give
  \<open>False\<close>, and the result is \<open>True\<close> exactly for the expected digest.
\<close>

theorem C10_verifyVapiSignature_total:
  "(\<exists>b. verifyTryBlock hmacHex payload sig secret = Inr b)
   \<and> verifyVapiSignature hmacHex payload None secret = False
   \<and> verifyVapiSignature hmacHex payload (Some []) secret = False
   \<and> (length sig \<noteq> length (hmacHex secret payload)
        \<longrightarrow> verifyVapiSignature hmacHex payload (Some sig) secret = False)
   \<and> (verifyVapiSignature hmacHex payload signature secret
        \<longleftrightarrow> (\<exists>s. signature = Some s \<and> s \<noteq> [] \<and> s = hmacHex secret payload))"
proof (intro conjI impI)
  show "\<exists>b. verifyTryBlock hmacHex payload sig secret = Inr b"
    by (simp add: verifyTryBlock_returns)
  show "verifyVapiSignature hmacHex payload None secret = False"
    by (simp add: verifyVapiSignature_def)
  show "verifyVapiSignature hmacHex payload (Some []) secret = False"
    by (simp add: verifyVapiSignature_def)
  show "verifyVapiSignature hmacHex payload (Some sig) secret = False"
    if "length sig \<noteq> length (hmacHex secret payload)"
    using that by (auto simp: verifyVapiSignature_def verifyTryBlock_returns)
  show "verifyVapiSignature hmacHex payload signature secret
        \<longleftrightarrow> (\<exists>s. signature = Some s \<and> s \<noteq> [] \<and> s = hmacHex secret payload)"
    by (cases signature) (auto simp: verifyVapiSignature_def verifyTryBlock_returns)
qed

text \<open>The witness takes a stand-in for the digest function.\<close>

theorem C10_verifyVapiSignature_total_witness:
  "length ''abc'' \<noteq> length ((\<lambda>secret payload. ''0a1b2c3d'') ''key'' ''{}'')
   \<and> verifyVapiSignature (\<lambda>secret payload. ''0a1b2c3d'') ''{}'' (Some ''abc'') ''key'' = False
   \<and> verifyVapiSignature (\<lambda>secret payload. ''0a1b2c3d'') ''{}'' (Some ''0a1b2c3d'') ''key'' = True"
  using C10_verifyVapiSignature_total
    [of "\<lambda>secret payload. ''0a1b2c3d''" "''{}''" "''abc''" "''key''" "Some ''0a1b2c3d''"]
  by simp










section \<open>Replaying an ended status update\<close>

lemma find_vapi_updRow:
  assumes "distinct (map row_id d)"
    and "find (\<lambda>r. vapi_call_id r = Some v) d = Some r0"
    and "vapi_call_id (F r0) = Some v"
  shows "find (\<lambda>r. vapi_call_id r = Some v) (updRow (row_id r0) F d) = Some (F r0)"
  using assms
proof (induction d)
  case Nil
  then show ?case by simp
next
  case (Cons x d)
  show ?case
  proof (cases "vapi_call_id x = Some v")
    case True
    then have "x = r0" using Cons.prems(2) by simp
    then show ?thesis using Cons.prems(3) by (simp add: updRow_def)
  next
    case False
    then have f: "find (\<lambda>r. vapi_call_id r = Some v) d = Some r0"
      using Cons.prems(2) by simp
    then have "r0 \<in> set d" by (rule find_member)
    then have ne: "row_id x \<noteq> row_id r0" using Cons.prems(1) by auto
    have "find (\<lambda>r. vapi_call_id r = Some v) (updRow (row_id r0) F d) = Some (F r0)"
      using Cons.prems(1) f Cons.prems(3) by (intro Cons.IH) simp_all
    then show ?thesis using False ne by (simp add: updRow_def)
  qed
qed

text \<open>The row that the summary of an ended update is generated from.\<close>

lemma summary_endedRow:
  "row_summary (endedRow now m r) =
     Some (generateCallSummary
             (rowToCall (statusStep now (finalStatus (endReasonOf m))
                (endedErrorMessage (finalStatus (endReasonOf m)) (endReasonOf m))
                (transcriptStep now (artifact_messages m) r)))
             (artifact_messages m))"
  by (simp add: endedRow_def summary_summaryStep)

lemma finalStatus_not_IN_PROGRESS: "finalStatus x \<noteq> IN_PROGRESS"
  by (simp add: finalStatus_def)

lemma replay_inputs:
  fixes now1 now2 :: int and fs :: CallStatus and e :: "string option"
    and a :: "VapiMessage list option" and r :: Row
  assumes now1: "now1 \<noteq> 0" and fs: "fs \<noteq> IN_PROGRESS"
  defines "P \<equiv> \<lambda>now r. statusStep now fs e (transcriptStep now a r)"
  defines "r1 \<equiv> summaryStep now1 a (P now1 r)"
  shows "row_transcript (P now2 r1) = row_transcript (P now1 r)"
    and "current_state (P now2 r1) = current_state (P now1 r)"
    and "leadData (rowToCall (P now2 r1)) = leadData (rowToCall (P now1 r))"
    and "orUndefN (started_at (P now2 r1)) = orUndefN (started_at (P now1 r))"
    and "orUndefN (ended_at (P now2 r1)) = orUndefN (ended_at (P now1 r))"
proof -
  show "row_transcript (P now2 r1) = row_transcript (P now1 r)"
    by (cases a)
       (simp_all add: P_def r1_def transcript_statusStep transcript_transcriptStep
          transcript_summaryStep)
  have e1: "orUndefN (ended_at r1) = orUndefN (ended_at (P now1 r))"
    by (simp add: r1_def ended_summaryStep orUndefN_idem)
  have eP: "\<And>now x. ended_at (P now x) =
       (if (fs = COMPLETED \<or> fs = FAILED) \<and> orUndefN (ended_at x) = None then Some now
        else orUndefN (ended_at x))"
    by (simp add: P_def ended_statusStep ended_transcriptStep)
  have sP: "\<And>now x. current_state (P now x) =
       (if (fs = COMPLETED \<or> fs = FAILED) \<and> orUndefN (ended_at x) = None then END
        else current_state x)"
    by (simp add: P_def state_statusStep ended_transcriptStep state_transcriptStep)
  have s1: "current_state r1 = current_state (P now1 r)"
    by (simp add: r1_def state_summaryStep)
  have n1: "orUndefN (Some now1) = Some now1"
    using now1 by (simp add: orUndefN_def)
  show "current_state (P now2 r1) = current_state (P now1 r)"
    unfolding sP [of now2 r1] e1 s1 unfolding eP sP
    by (simp add: n1 orUndefN_idem)
  show "orUndefN (ended_at (P now2 r1)) = orUndefN (ended_at (P now1 r))"
    unfolding eP [of now2 r1] e1 unfolding eP
    by (simp add: n1 orUndefN_idem)
  have lP: "\<And>now x. leadData (rowToCall (P now x))
        = reloadedLead (leadData (rowToCall x)) (phone (rowToCall x))"
    by (simp add: P_def lead_statusStep lead_transcriptStep)
  have pP: "\<And>now x. phone (rowToCall (P now x)) = phone (rowToCall x)"
    by (cases a)
       (simp_all add: P_def phone_statusStep transcriptStep_def phone_onRow phone_extract)
  have l1: "leadData (rowToCall r1)
        = reloadedLead (leadData (rowToCall (P now1 r))) (phone (rowToCall (P now1 r)))"
    by (simp add: r1_def lead_summaryStep)
  have p1: "phone (rowToCall r1) = phone (rowToCall r)"
    by (simp add: r1_def phone_summaryStep pP)
  show "leadData (rowToCall (P now2 r1)) = leadData (rowToCall (P now1 r))"
    unfolding lP [of now2 r1] l1 p1 unfolding lP pP
    by (simp add: reloadedLead_idem)
  have stP: "\<And>now x. orUndefN (started_at (P now x)) = orUndefN (started_at x)"
    using fs by (simp add: P_def started_statusStep_terminal orUndefN_idem started_transcriptStep)
  show "orUndefN (started_at (P now2 r1)) = orUndefN (started_at (P now1 r))"
    by (simp add: stP r1_def started_summaryStep orUndefN_idem)
qed

lemma replay_endedRow:
  assumes "now1 \<noteq> 0"
  shows "row_status (endedRow now2 m (endedRow now1 m r)) = row_status (endedRow now1 m r)"
    and "row_transcript (endedRow now2 m (endedRow now1 m r)) = row_transcript (endedRow now1 m r)"
    and "row_summary (endedRow now2 m (endedRow now1 m r)) = row_summary (endedRow now1 m r)"
proof -
  let ?fs = "finalStatus (endReasonOf m)"
  let ?e = "endedErrorMessage ?fs (endReasonOf m)"
  let ?a = "artifact_messages m"
  let ?P = "\<lambda>now r. statusStep now ?fs ?e (transcriptStep now ?a r)"
  have r1: "endedRow now1 m r = summaryStep now1 ?a (?P now1 r)"
    by (simp add: endedRow_def)
  note inp = replay_inputs [OF assms finalStatus_not_IN_PROGRESS [of "endReasonOf m"],
      where e = ?e and ?now2.0 = now2 and a = ?a and r = r]
  show "row_status (endedRow now2 m (endedRow now1 m r)) = row_status (endedRow now1 m r)"
    by (simp add: status_endedRow)
  have "row_transcript (endedRow now2 m (endedRow now1 m r))
        = row_transcript (?P now2 (endedRow now1 m r))"
    by (simp add: endedRow_def [of now2] transcript_summaryStep)
  also have "\<dots> = row_transcript (?P now1 r)"
    unfolding r1 by (rule inp(1))
  also have "\<dots> = row_transcript (endedRow now1 m r)"
    by (simp add: endedRow_def transcript_summaryStep)
  finally show "row_transcript (endedRow now2 m (endedRow now1 m r))
                = row_transcript (endedRow now1 m r)" .
  have "generateCallSummary (rowToCall (?P now2 (endedRow now1 m r))) ?a
        = generateCallSummary (rowToCall (?P now1 r)) ?a"
    unfolding r1
  proof (rule generateCallSummary_cong)
    show "transcript (rowToCall (?P now2 (summaryStep now1 ?a (?P now1 r))))
          = transcript (rowToCall (?P now1 r))"
      unfolding transcript_rowToCall by (rule inp(1))
    show "state (rowToCall (?P now2 (summaryStep now1 ?a (?P now1 r))))
          = state (rowToCall (?P now1 r))"
      unfolding state_rowToCall by (rule inp(2))
    show "leadData (rowToCall (?P now2 (summaryStep now1 ?a (?P now1 r))))
          = leadData (rowToCall (?P now1 r))"
      by (rule inp(3))
    show "startedAt (rowToCall (?P now2 (summaryStep now1 ?a (?P now1 r))))
          = startedAt (rowToCall (?P now1 r))"
      unfolding startedAt_rowToCall by (rule inp(4))
    show "completedAt (rowToCall (?P now2 (summaryStep now1 ?a (?P now1 r))))
          = completedAt (rowToCall (?P now1 r))"
      unfolding completedAt_rowToCall by (rule inp(5))
  qed
  then show "row_summary (endedRow now2 m (endedRow now1 m r)) = row_summary (endedRow now1 m r)"
    by (simp add: summary_endedRow)
qed

section \<open>Claims about the summary\<close>

lemma summary_fixed_by_summaryStep:
  "generateCallSummary (rowToCall (summaryStep now a (statusStep now' st e r))) a'
   = generateCallSummary (rowToCall (statusStep now' st e r)) a'"
proof (rule generateCallSummary_cong)
  let ?r = "statusStep now' st e r"
  show "transcript (rowToCall (summaryStep now a ?r)) = transcript (rowToCall ?r)"
    by (simp add: transcript_rowToCall transcript_summaryStep)
  show "state (rowToCall (summaryStep now a ?r)) = state (rowToCall ?r)"
    by (simp add: state_rowToCall state_summaryStep)
  show "leadData (rowToCall (summaryStep now a ?r)) = leadData (rowToCall ?r)"
    by (simp add: lead_summaryStep lead_statusStep phone_statusStep reloadedLead_idem)
  show "startedAt (rowToCall (summaryStep now a ?r)) = startedAt (rowToCall ?r)"
    by (simp add: startedAt_rowToCall started_summaryStep orUndefN_idem)
  show "completedAt (rowToCall (summaryStep now a ?r)) = completedAt (rowToCall ?r)"
    by (simp add: completedAt_rowToCall ended_summaryStep orUndefN_idem)
qed

lemma summary_endedRow_fixpoint:
  "summary (rowToCall (endedRow now m r))
   = Some (generateCallSummary (rowToCall (endedRow now m r)) (artifact_messages m))"
  unfolding summary_rowToCall summary_endedRow
  by (simp add: endedRow_def summary_fixed_by_summaryStep)

lemma sweep_keeps_summary:
  assumes "distinct (map row_id d)" and "r \<in> set d" and "row_summary r = Some s"
  shows "map_option row_summary
           (find (\<lambda>x. row_id x = row_id r) (snd (markStaleCallsAsFailed now T d)))
         = Some (Some s)"
proof -
  let ?F = "\<lambda>r. if isStale now T r then reapRow now T r else r"
  have idp: "\<And>x. row_id (?F x) = row_id x"
    by (simp add: row_id_reapRow)
  have "find (\<lambda>x. row_id x = row_id r) d = Some r"
    using assms(1,2) by (rule find_member_id)
  then have "find (\<lambda>x. row_id x = row_id r) (map ?F d) = Some (?F r)"
    by (simp add: find_map_same_id [of ?F, OF idp])
  then show ?thesis
    using assms(3) by (simp add: markStale_rows [OF assms(1)] summary_reapRow)
qed

text \<open>
  Claim C2 (the summary is written at most once), as stated, fails for the webhook: an
  ended status update regenerates the summary and overwrites the one that is there.
  A call whose summary has the outcome "Call failed or timed out" has, after an ended
  update with the reason "customer-ended-call", a summary with the outcome
  "Call completed".
\<close>

theorem C2_ended_update_overwrites_summary:
  "map_option outcome (row_summary summarisedRow) = Some ''Call failed or timed out''
   \<and> map row_summary
       (vapiRoutes 3000 (statusEvent ''ended'' (Some ''customer-ended-call'') None)
          [summarisedRow])
     = [Some \<lparr> duration = 1, outcome = ''Call completed'', interestLevel = COLD,
                keyPoints = [''Property: 5 acres in Travis County, TX''],
                nextAction = Some ''Follow up in 2-4 weeks'',
                appointmentScheduled = Some False \<rparr>]"
  by code_simp

text \<open>
  Claim C2, amended: an ended status update always stores a summary generated from the
  call as it is stored after the update and from the artifact of the event, whatever
  summary was there before; processing the same ended event a second time leaves the
  status, the summary and the transcript as the first processing left them (the clock
  of the first processing not being zero); and the stale-call sweep leaves a summary
  that is present as it is.
\<close>

theorem C2_summary_regenerated_same_on_replay:
  assumes "distinct (map row_id d)"
    and "getByVapiCallId d v = Some call"
    and "call_ref m = Some v" and "v \<noteq> []"
    and "msg_status m = Some ''ended''"
    and "now1 \<noteq> 0"
  shows "(\<exists>c. get (handleStatusUpdate now1 m d) (call_id call) = Some c
              \<and> summary c = Some (generateCallSummary c (artifact_messages m)))
         \<and> map_option (\<lambda>c. (status c, summary c, transcript c))
             (get (handleStatusUpdate now2 m (handleStatusUpdate now1 m d)) (call_id call))
           = map_option (\<lambda>c. (status c, summary c, transcript c))
               (get (handleStatusUpdate now1 m d) (call_id call))
         \<and> (\<forall>r s. r \<in> set d \<and> row_summary r = Some s
               \<longrightarrow> map_option row_summary
                     (find (\<lambda>x. row_id x = row_id r) (snd (markStaleCallsAsFailed now1 T d)))
                   = Some (Some s))"
proof (intro conjI allI impI)
  from assms(2) obtain r0
    where found: "find (\<lambda>r. vapi_call_id r = Some v) d = Some r0" and call: "call = rowToCall r0"
    by (rule getByVapiCallId_Some)
  have st: "truthyS (msg_status m)" using assms(5) by simp
  have ev: "\<And>now r. eventRow now m r = endedRow now m r"
    using assms(5) by (rule eventRow_ended)
  have i: "call_id call = row_id r0" by (simp add: call call_id_rowToCall)
  have d1: "handleStatusUpdate now1 m d = updRow (row_id r0) (endedRow now1 m) d"
    using handleStatusUpdate_updRow [OF assms(1) found assms(3,4) st, of now1]
    by (simp add: ev [abs_def])
  have g1: "get (handleStatusUpdate now1 m d) (call_id call) = Some (rowToCall (endedRow now1 m r0))"
    using get_handleStatusUpdate [OF assms(1) found assms(3,4) st, of now1] by (simp add: ev i)
  show "\<exists>c. get (handleStatusUpdate now1 m d) (call_id call) = Some c
            \<and> summary c = Some (generateCallSummary c (artifact_messages m))"
    unfolding g1 by (simp add: summary_endedRow_fixpoint)
  have dist1: "distinct (map row_id (handleStatusUpdate now1 m d))"
    unfolding d1 using assms(1) by (simp add: ids_updRow row_id_endedRow)
  have "vapi_call_id r0 = Some v" using found by (auto simp: find_Some_iff)
  then have "vapi_call_id (endedRow now1 m r0) = Some v"
    using assms(4) by (rule vapi_endedRow)
  with assms(1) found
  have found1: "find (\<lambda>r. vapi_call_id r = Some v) (handleStatusUpdate now1 m d)
                = Some (endedRow now1 m r0)"
    unfolding d1 by (rule find_vapi_updRow)
  have g2: "get (handleStatusUpdate now2 m (handleStatusUpdate now1 m d)) (call_id call)
            = Some (rowToCall (endedRow now2 m (endedRow now1 m r0)))"
    using get_handleStatusUpdate [OF dist1 found1 assms(3,4) st, of now2]
    by (simp add: ev i row_id_endedRow)
  show "map_option (\<lambda>c. (status c, summary c, transcript c))
             (get (handleStatusUpdate now2 m (handleStatusUpdate now1 m d)) (call_id call))
           = map_option (\<lambda>c. (status c, summary c, transcript c))
               (get (handleStatusUpdate now1 m d) (call_id call))"
    unfolding g1 g2
    by (simp add: status_rowToCall summary_rowToCall transcript_rowToCall
        replay_endedRow [OF assms(6)])
next
  fix r s assume "r \<in> set d \<and> row_summary r = Some s"
  then show "map_option row_summary
               (find (\<lambda>x. row_id x = row_id r) (snd (markStaleCallsAsFailed now1 T d)))
             = Some (Some s)"
    using assms(1) by (simp add: sweep_keeps_summary)
qed

theorem C2_summary_regenerated_same_on_replay_witness:
  "map_option (\<lambda>c. (status c, map_option outcome (summary c), transcript c))
     (get (handleStatusUpdate 4000 (statusEvent ''ended'' (Some ''customer-ended-call'') None)
             (handleStatusUpdate 3000 (statusEvent ''ended'' (Some ''customer-ended-call'') None)
                [summarisedRow]))
        ''call-1'')
   = Some (COMPLETED, Some ''Call completed'', [])
   \<and> map_option (\<lambda>c. (status c, map_option outcome (summary c), transcript c))
     (get (handleStatusUpdate 3000 (statusEvent ''ended'' (Some ''customer-ended-call'') None)
             [summarisedRow])
        ''call-1'')
   = Some (COMPLETED, Some ''Call completed'', [])"
proof -
  let ?m = "statusEvent ''ended'' (Some ''customer-ended-call'') None"
  let ?d = "[summarisedRow]"
  have d: "distinct (map row_id ?d)" by simp
  have g: "getByVapiCallId ?d ''vapi-1'' = Some (rowToCall summarisedRow)"
    by (simp add: getByVapiCallId_def summarisedRow_def exampleRow_def)
  have r: "call_ref ?m = Some ''vapi-1''" by (simp add: statusEvent_def)
  have s: "msg_status ?m = Some ''ended''" by (simp add: statusEvent_def)
  have i: "call_id (rowToCall summarisedRow) = ''call-1''"
    by (simp add: rowToCall_def summarisedRow_def exampleRow_def)
  have n: "(3000::int) \<noteq> 0" by simp
  have e: "map_option (\<lambda>c. (status c, map_option outcome (summary c), transcript c))
             (get (handleStatusUpdate 3000 ?m ?d) ''call-1'')
           = Some (COMPLETED, Some ''Call completed'', [])"
    by code_simp
  have "map_option (\<lambda>c. (status c, summary c, transcript c))
          (get (handleStatusUpdate 4000 ?m (handleStatusUpdate 3000 ?m ?d)) ''call-1'')
        = map_option (\<lambda>c. (status c, summary c, transcript c))
            (get (handleStatusUpdate 3000 ?m ?d) ''call-1'')"
    using C2_summary_regenerated_same_on_replay [OF d g r _ s n, of 4000] unfolding i by simp
  then have "map_option (\<lambda>c. (status c, map_option outcome (summary c), transcript c))
          (get (handleStatusUpdate 4000 ?m (handleStatusUpdate 3000 ?m ?d)) ''call-1'')
        = map_option (\<lambda>c. (status c, map_option outcome (summary c), transcript c))
            (get (handleStatusUpdate 3000 ?m ?d) ''call-1'')"
    by (cases "get (handleStatusUpdate 4000 ?m (handleStatusUpdate 3000 ?m ?d)) ''call-1''";
        cases "get (handleStatusUpdate 3000 ?m ?d) ''call-1''") simp_all
  with e show ?thesis by simp
qed

section \<open>Claims about the conversation state\<close>

lemma state_endedRow:
  "current_state (endedRow now m r) =
     (if (finalStatus (endReasonOf m) = COMPLETED \<or> finalStatus (endReasonOf m) = FAILED)
         \<and> orUndefN (ended_at r) = None
      then END else current_state r)"
  by (simp add: endedRow_def state_summaryStep state_statusStep state_transcriptStep
      ended_transcriptStep)

lemma ended_endedRow:
  "ended_at (endedRow now m r) =
     orUndefN (if (finalStatus (endReasonOf m) = COMPLETED \<or> finalStatus (endReasonOf m) = FAILED)
                  \<and> orUndefN (ended_at r) = None
               then Some now else orUndefN (ended_at r))"
  by (simp add: endedRow_def ended_summaryStep ended_statusStep ended_transcriptStep)

lemma state_failedRow:
  "current_state (failedRow now m r) =
     (if the (msg_status m) \<noteq> ''no-answer'' \<and> orUndefN (ended_at r) = None
      then END else current_state r)"
  by (simp add: failedRow_def state_summaryStep state_statusStep)

lemma ended_failedRow:
  "ended_at (failedRow now m r) =
     orUndefN (if the (msg_status m) \<noteq> ''no-answer'' \<and> orUndefN (ended_at r) = None
               then Some now else orUndefN (ended_at r))"
  by (simp add: failedRow_def ended_summaryStep ended_statusStep)

lemma state_eventRow_END: "current_state r = END \<Longrightarrow> current_state (eventRow now m r) = END"
  by (simp add: eventRow_def Let_def state_endedRow state_failedRow state_statusStep)

lemma closing_eventRow:
  assumes "st = ''ended'' \<or> st = ''failed'' \<or> st = ''busy''"
    and "msg_status m = Some st"
    and "row_status (eventRow now m r) = COMPLETED \<or> row_status (eventRow now m r) = FAILED"
    and "orUndefN (ended_at r) = None" and "now \<noteq> 0"
  shows "current_state (eventRow now m r) = END \<and> orUndefN (ended_at (eventRow now m r)) = Some now"
proof (cases "st = ''ended''")
  case True
  then have ev: "eventRow now m r = endedRow now m r"
    using assms(2) by (simp add: eventRow_ended)
  have "finalStatus (endReasonOf m) = COMPLETED \<or> finalStatus (endReasonOf m) = FAILED"
    using assms(3) unfolding ev by (simp add: status_endedRow)
  then show ?thesis
    unfolding ev using assms(4,5)
    by (simp add: state_endedRow ended_endedRow orUndefN_def)
next
  case False
  then have st: "st = ''failed'' \<or> st = ''busy''" using assms(1) by simp
  then have ev: "eventRow now m r = failedRow now m r"
    using assms(2) by (auto simp: eventRow_def)
  have "the (msg_status m) \<noteq> ''no-answer''" using st assms(2) by auto
  then show ?thesis
    unfolding ev using assms(4,5)
    by (simp add: state_failedRow ended_failedRow orUndefN_def)
qed

text \<open>
  An ended status update with the reason "voicemail-reached" on a call in progress:
  the status becomes VOICEMAIL, the conversation state and \<open>ended_at\<close> stay as they were.
\<close>

lemma voicemail_update_leaves_state:
  "map (\<lambda>r. (row_status r, current_state r, ended_at r))
     (vapiRoutes 3000 (statusEvent ''ended'' (Some ''voicemail-reached'') None)
        [exampleRow IN_PROGRESS])
   = [(VOICEMAIL, GREETING, None)]"
  by code_simp

text \<open>
  Claim C4 (conversation state in lockstep with terminality), as stated, fails: the
  conversation state is never reset, and a status update overwrites a terminal status.
  A call that is completed and then receives an in-progress signal has the status
  IN_PROGRESS, which is not terminal, and the conversation state END.
\<close>

theorem C4_state_END_with_status_in_progress:
  "map row_status
     (vapiRoutes 4000 (statusEvent ''in-progress'' None None)
        (vapiRoutes 3000 (statusEvent ''ended'' (Some ''customer-ended-call'') None)
           [exampleRow CALLING]))
   = [IN_PROGRESS]
   \<and> map current_state
     (vapiRoutes 4000 (statusEvent ''in-progress'' None None)
        (vapiRoutes 3000 (statusEvent ''ended'' (Some ''customer-ended-call'') None)
           [exampleRow CALLING]))
   = [END]
   \<and> \<not> terminal IN_PROGRESS"
  by code_simp

text \<open>
  Claim C4, amended: a status update that moves a call whose \<open>completedAt\<close> is unset
  into COMPLETED or FAILED sets the conversation state to END and \<open>completedAt\<close> to the
  clock (which is not zero); and once the conversation state is END, no status update
  changes it. So the state END does not imply a terminal status.
\<close>

theorem C4_closing_sets_END_and_END_stays:
  assumes "distinct (map row_id d)"
    and "getByVapiCallId d v = Some call"
    and "call_ref m = Some v" and "v \<noteq> []"
    and "msg_status m = Some st" and "st \<noteq> []"
    and "now \<noteq> 0"
  shows "\<exists>c'. get (handleStatusUpdate now m d) (call_id call) = Some c'
           \<and> ((st = ''ended'' \<or> st = ''failed'' \<or> st = ''busy'')
                \<and> (status c' = COMPLETED \<or> status c' = FAILED) \<and> completedAt call = None
              \<longrightarrow> state c' = END \<and> completedAt c' = Some now)
           \<and> (state call = END \<longrightarrow> state c' = END)"
proof -
  from assms(2) obtain r0
    where found: "find (\<lambda>r. vapi_call_id r = Some v) d = Some r0" and call: "call = rowToCall r0"
    by (rule getByVapiCallId_Some)
  have "truthyS (msg_status m)" using assms(5,6) by simp
  with assms(1) found assms(3,4)
  have g: "get (handleStatusUpdate now m d) (row_id r0) = Some (rowToCall (eventRow now m r0))"
    by (rule get_handleStatusUpdate)
  have closing: "state (rowToCall (eventRow now m r0)) = END
                 \<and> completedAt (rowToCall (eventRow now m r0)) = Some now"
    if "st = ''ended'' \<or> st = ''failed'' \<or> st = ''busy''"
      and "status (rowToCall (eventRow now m r0)) = COMPLETED
           \<or> status (rowToCall (eventRow now m r0)) = FAILED"
      and "completedAt call = None"
    using closing_eventRow [OF that(1) assms(5) _ _ assms(7), where r = r0] that(2,3)
    by (simp add: call status_rowToCall state_rowToCall completedAt_rowToCall)
  have stays: "state (rowToCall (eventRow now m r0)) = END" if "state call = END"
    using that by (simp add: call state_rowToCall state_eventRow_END)
  show ?thesis
    using g closing stays by (simp add: call call_id_rowToCall)
qed

theorem C4_closing_sets_END_and_END_stays_witness:
  "map_option (\<lambda>c. (status c, state c, completedAt c))
     (get (handleStatusUpdate 3000 (statusEvent ''ended'' (Some ''customer-ended-call'') None)
             [exampleRow CALLING])
        ''call-1'')
   = Some (COMPLETED, END, Some 3000)"
proof -
  let ?m = "statusEvent ''ended'' (Some ''customer-ended-call'') None"
  let ?d = "[exampleRow CALLING]"
  have d: "distinct (map row_id ?d)" by simp
  have g: "getByVapiCallId ?d ''vapi-1'' = Some (rowToCall (exampleRow CALLING))"
    by (simp add: getByVapiCallId_def exampleRow_def)
  have r: "call_ref ?m = Some ''vapi-1''" by (simp add: statusEvent_def)
  have s: "msg_status ?m = Some ''ended''" by (simp add: statusEvent_def)
  have i: "call_id (rowToCall (exampleRow CALLING)) = ''call-1''"
    by (simp add: rowToCall_def exampleRow_def)
  have c: "completedAt (rowToCall (exampleRow CALLING)) = None"
    by (simp add: rowToCall_def exampleRow_def orUndefN_def)
  have n: "(3000::int) \<noteq> 0" by simp
  have e: "map_option status (get (handleStatusUpdate 3000 ?m ?d) ''call-1'') = Some COMPLETED"
    by code_simp
  from C4_closing_sets_END_and_END_stays [OF d g r _ s _ n]
  obtain c' where "get (handleStatusUpdate 3000 ?m ?d) ''call-1'' = Some c'"
    and "status c' = COMPLETED \<or> status c' = FAILED \<longrightarrow> state c' = END \<and> completedAt c' = Some 3000"
    unfolding i c by auto
  with e show ?thesis by auto
qed

end
